theory Spec2Isabelle
  imports Main "HOL-Library.Sublist" "HOL-Library.AList"
begin

section \<open>JavaScript string primitives used by the services\<close>

text \<open>
  Strings are lists of characters. \<open>indexOf s p\<close> is the position of the first
  occurrence of \<open>p\<close> in \<open>s\<close> (\<^verbatim>\<open>String.prototype.indexOf\<close>), \<open>includes_str\<close> is
  \<^verbatim>\<open>String.prototype.includes\<close>.
\<close>

fun indexOf :: "string \<Rightarrow> string \<Rightarrow> nat option" where
  "indexOf [] p = (if p = [] then Some 0 else None)"
| "indexOf (c # s) p =
     (if prefix p (c # s) then Some 0 else map_option Suc (indexOf s p))"

definition includes_str :: "string \<Rightarrow> string \<Rightarrow> bool" where
  "includes_str s p = (indexOf s p \<noteq> None)"

text \<open>
  \<^verbatim>\<open>String.prototype.replace(pattern, replacement)\<close> with a string pattern replaces the
  first occurrence only, and expands the replacement string first (ECMAScript
  GetSubstitution, with no capture groups): \<^verbatim>\<open>$$\<close> is a dollar sign, \<^verbatim>\<open>$&\<close> the
  matched text, \<^verbatim>\<open>$`\<close> the text before the match, \<^verbatim>\<open>$'\<close> the text after it; any
  other character, also a dollar sign before anything else, stands for itself.
\<close>

fun getSubstitution :: "string \<Rightarrow> string \<Rightarrow> string \<Rightarrow> string \<Rightarrow> string" where
  "getSubstitution matched preceding following [] = []"
| "getSubstitution matched preceding following [c] = [c]"
| "getSubstitution matched preceding following (c # d # r) =
     (if c = CHR ''$'' then
        (if d = CHR ''$'' then CHR ''$'' # getSubstitution matched preceding following r
         else if d = CHR ''&'' then matched @ getSubstitution matched preceding following r
         else if d = CHR 0x60 then preceding @ getSubstitution matched preceding following r
         else if d = CHR 0x27 then following @ getSubstitution matched preceding following r
         else c # getSubstitution matched preceding following (d # r))
      else c # getSubstitution matched preceding following (d # r))"

definition replace :: "string \<Rightarrow> string \<Rightarrow> string \<Rightarrow> string" where
  "replace s p r =
     (case indexOf s p of
        None \<Rightarrow> s
      | Some i \<Rightarrow>
          take i s
          @ getSubstitution p (take i s) (drop (i + length p) s) r
          @ drop (i + length p) s)"

text \<open>
  \<open>first_at p a b s\<close>: the string \<open>s\<close> is \<open>a\<close>, then its first occurrence of \<open>p\<close>, then
  \<open>b\<close> (no occurrence of \<open>p\<close> starts inside \<open>a\<close>). \<open>first_only p r a b s out\<close>: \<open>out\<close> is \<open>s\<close>
  with that first occurrence replaced and everything around it kept, or \<open>s\<close> itself
  where \<open>p\<close> does not occur.
\<close>

definition first_at :: "string \<Rightarrow> string \<Rightarrow> string \<Rightarrow> string \<Rightarrow> bool" where
  "first_at p a b s = (s = a @ p @ b \<and> \<not> includes_str (a @ butlast p) p)"

definition first_only :: "string \<Rightarrow> string \<Rightarrow> string \<Rightarrow> string \<Rightarrow> string \<Rightarrow> string \<Rightarrow> bool" where
  "first_only p r a b s out =
     (if includes_str s p then first_at p a b s \<and> out = a @ getSubstitution p a b r @ b
      else out = s)"

text \<open>Decimal rendering of a non-negative number, as a template literal prints it.\<close>

fun digits :: "nat \<Rightarrow> string" where
  "digits n =
     (if n < 10 then [''0123456789'' ! n]
      else digits (n div 10) @ [''0123456789'' ! (n mod 10)])"

declare digits.simps [simp del]

section \<open>The GitHub synchronizer (src/services/github.service.ts)\<close>

record GitHubFileContent =
  sha :: string
  content :: string

record GitHubPRConfig =
  token :: string
  repo :: string
  branch :: string
  targetPath :: string
  commitMessageTemplate :: string
  prTitleTemplate :: string
  prBodyTemplate :: string

record CreatePRResult =
  success :: bool
  prUrl :: "string option"
  error :: "string option"
  noChanges :: "bool option"

text \<open>
  A value thrown by a remote call: an \<^verbatim>\<open>Error\<close> object with its message, or anything
  else (for which \<^verbatim>\<open>error instanceof Error\<close> is false).
\<close>

datatype thrown = JsError string | NonError

text \<open>
  The answer of \<^verbatim>\<open>octokit.repos.getContent\<close>: an array for a directory, or one entry
  with its type, its sha and its content. The content is carried already decoded
  (the base64 transport encoding of contents is not modelled, in either direction).
\<close>

datatype content_data = Listing | Entry string string string

text \<open>
  The Octokit client and the clock are the environment of the service: each remote
  operation maps its arguments and the state \<open>'r\<close> of the outside world to a value or a
  thrown error, and a new state. \<open>date_toISOString\<close> and \<open>date_now\<close> read the clock.
\<close>

record 'r octokit =
  repos_getContent ::
    "string \<Rightarrow> string option \<Rightarrow> string \<Rightarrow> string \<Rightarrow> 'r \<Rightarrow> (thrown + content_data) \<times> 'r"
  repos_getBranch ::
    "string \<Rightarrow> string option \<Rightarrow> string \<Rightarrow> 'r \<Rightarrow> (thrown + string) \<times> 'r"
  git_createRef ::
    "string \<Rightarrow> string option \<Rightarrow> string \<Rightarrow> string \<Rightarrow> 'r \<Rightarrow> (thrown + unit) \<times> 'r"
  repos_createOrUpdateFileContents ::
    "string \<Rightarrow> string option \<Rightarrow> string \<Rightarrow> string \<Rightarrow> string \<Rightarrow> string option \<Rightarrow> string
       \<Rightarrow> 'r \<Rightarrow> (thrown + unit) \<times> 'r"
  pulls_create ::
    "string \<Rightarrow> string option \<Rightarrow> string \<Rightarrow> string \<Rightarrow> string \<Rightarrow> string \<Rightarrow> 'r
       \<Rightarrow> (thrown + string) \<times> 'r"
  git_deleteRef ::
    "string \<Rightarrow> string option \<Rightarrow> string \<Rightarrow> 'r \<Rightarrow> (thrown + unit) \<times> 'r"
  date_toISOString :: "'r \<Rightarrow> string"
  date_now :: "'r \<Rightarrow> nat"

text \<open>
  The calls made on the service's own remote operations (what a spy on the methods of
  \<^verbatim>\<open>GitHubService\<close> counts), in order, with their arguments.
\<close>

datatype call =
    GetCurrentFile
  | CreateBranch string
  | CommitFile string string string "string option"
  | CreatePullRequest string string string
  | DeleteBranch string

type_synonym 'r world = "call list \<times> 'r"

text \<open>\<^verbatim>\<open>this.config.repo.split('/')\<close>, destructured as \<^verbatim>\<open>[owner, repo]\<close>.\<close>

fun split_slash :: "string \<Rightarrow> string \<Rightarrow> string list" where
  "split_slash acc [] = [acc]"
| "split_slash acc (c # s) =
     (if c = CHR ''/'' then acc # split_slash [] s else split_slash (acc @ [c]) s)"

definition owner_repo :: "GitHubPRConfig \<Rightarrow> string \<times> string option" where
  "owner_repo cfg =
     (case split_slash [] (repo cfg) of
        [] \<Rightarrow> ([], None)
      | [a] \<Rightarrow> (a, None)
      | a # b # _ \<Rightarrow> (a, Some b))"

text \<open>\<^verbatim>\<open>error instanceof Error && error.message.includes(p)\<close>\<close>

fun is_error_including :: "thrown \<Rightarrow> string \<Rightarrow> bool" where
  "is_error_including (JsError m) p = includes_str m p"
| "is_error_including NonError p = False"

text \<open>Truthiness of an optional string: absent and the empty string are falsy.\<close>

fun truthy :: "string option \<Rightarrow> bool" where
  "truthy None = False"
| "truthy (Some s) = (s \<noteq> [])"

definition getCurrentFile ::
  "'r octokit \<Rightarrow> GitHubPRConfig \<Rightarrow> 'r world \<Rightarrow> (thrown + GitHubFileContent option) \<times> 'r world" where
  "getCurrentFile ok cfg w =
     (let (owner, rp) = owner_repo cfg;
          (response, r') = repos_getContent ok owner rp (targetPath cfg) (branch cfg) (snd w);
          tried =
            (case response of
               Inl e \<Rightarrow> Inl e
             | Inr Listing \<Rightarrow> Inl (JsError ''Path points to a directory, not a file'')
             | Inr (Entry ty s c) \<Rightarrow>
                 if ty \<noteq> ''file'' then Inl (JsError ''Path does not point to a file'')
                 else Inr (Some \<lparr>sha = s, content = c\<rparr>))
      in (case tried of
            Inl e \<Rightarrow> if is_error_including e ''Not Found'' then Inr None else Inl e
          | Inr v \<Rightarrow> Inr v,
          (fst w @ [GetCurrentFile], r')))"

definition createBranch ::
  "'r octokit \<Rightarrow> GitHubPRConfig \<Rightarrow> string \<Rightarrow> 'r world \<Rightarrow> (thrown + unit) \<times> 'r world" where
  "createBranch ok cfg branchName w =
     (let (owner, rp) = owner_repo cfg;
          log = fst w @ [CreateBranch branchName];
          (baseBranch, r1) = repos_getBranch ok owner rp (branch cfg) (snd w)
      in case baseBranch of
           Inl e \<Rightarrow> (Inl e, (log, r1))
         | Inr tip \<Rightarrow>
             (let (res, r2) = git_createRef ok owner rp (''refs/heads/'' @ branchName) tip r1
              in (res, (log, r2))))"

definition commitFile ::
  "'r octokit \<Rightarrow> GitHubPRConfig \<Rightarrow> string \<Rightarrow> string \<Rightarrow> string \<Rightarrow> string option \<Rightarrow> 'r world
     \<Rightarrow> (thrown + unit) \<times> 'r world" where
  "commitFile ok cfg branchName body message baseSha w =
     (let (owner, rp) = owner_repo cfg;
          w0 = (fst w @ [CommitFile branchName body message baseSha], snd w);
          (fileSha, w1) =
            (if truthy baseSha then (Inr baseSha, w0)
             else (case getCurrentFile ok cfg w0 of
                     (Inl e, w') \<Rightarrow> (Inl e, w')
                   | (Inr currentFile, w') \<Rightarrow> (Inr (map_option sha currentFile), w')));
          (tried, w2) =
            (case fileSha of
               Inl e \<Rightarrow> (Inl e, w1)
             | Inr fs \<Rightarrow>
                 (let (res, r2) =
                        repos_createOrUpdateFileContents ok owner rp (targetPath cfg) message body
                          (if truthy fs then fs else None) branchName (snd w1)
                  in (res, (fst w1, r2))))
      in (case tried of
            Inl e \<Rightarrow>
              if is_error_including e ''SHA does not match''
              then Inl (JsError ''RACE_CONDITION: File was modified by another process'')
              else Inl e
          | Inr u \<Rightarrow> Inr u,
          w2))"

definition createPullRequest ::
  "'r octokit \<Rightarrow> GitHubPRConfig \<Rightarrow> string \<Rightarrow> string \<Rightarrow> string \<Rightarrow> 'r world
     \<Rightarrow> (thrown + string) \<times> 'r world" where
  "createPullRequest ok cfg branchName title body w =
     (let (owner, rp) = owner_repo cfg;
          (pr, r') = pulls_create ok owner rp title body branchName (branch cfg) (snd w)
      in (pr, (fst w @ [CreatePullRequest branchName title body], r')))"

definition deleteBranch ::
  "'r octokit \<Rightarrow> GitHubPRConfig \<Rightarrow> string \<Rightarrow> 'r world \<Rightarrow> (thrown + unit) \<times> 'r world" where
  "deleteBranch ok cfg branchName w =
     (let (owner, rp) = owner_repo cfg;
          (res, r') = git_deleteRef ok owner rp (''heads/'' @ branchName) (snd w)
      in (res, (fst w @ [DeleteBranch branchName], r')))"

text \<open>
  The rendering of one template, written three times in \<^verbatim>\<open>syncContent\<close>:
  \<^verbatim>\<open>template.replace('{key}', key).replace('{timestamp}', timestamp)\<close>.
\<close>

definition render :: "string \<Rightarrow> string \<Rightarrow> string \<Rightarrow> string" where
  "render template key timestamp =
     replace (replace template ''{key}'' key) ''{timestamp}'' timestamp"

definition no_change_result :: CreatePRResult where
  "no_change_result = \<lparr>success = True, prUrl = None, error = None, noChanges = Some True\<rparr>"

definition success_result :: "string \<Rightarrow> CreatePRResult" where
  "success_result url = \<lparr>success = True, prUrl = Some url, error = None, noChanges = None\<rparr>"

definition failure_result :: "string \<Rightarrow> CreatePRResult" where
  "failure_result msg = \<lparr>success = False, prUrl = None, error = Some msg, noChanges = None\<rparr>"

text \<open>\<^verbatim>\<open>currentFile && currentFile.content === newContent\<close>\<close>

definition is_unchanged :: "GitHubFileContent option \<Rightarrow> string \<Rightarrow> bool" where
  "is_unchanged currentFile newContent =
     (case currentFile of None \<Rightarrow> False | Some f \<Rightarrow> content f = newContent)"

text \<open>The \<^verbatim>\<open>try\<close> block of \<^verbatim>\<open>syncContent\<close>: \<open>Inl\<close> is the error it throws.\<close>

definition sync_try ::
  "'r octokit \<Rightarrow> GitHubPRConfig \<Rightarrow> string \<Rightarrow> string \<Rightarrow> string \<Rightarrow> string \<Rightarrow> 'r world
     \<Rightarrow> (thrown + CreatePRResult) \<times> 'r world" where
  "sync_try ok cfg key newContent timestamp branchName w =
     (case getCurrentFile ok cfg w of
        (Inl e, w1) \<Rightarrow> (Inl e, w1)
      | (Inr currentFile, w1) \<Rightarrow>
          if is_unchanged currentFile newContent
          then (Inr no_change_result, w1)
          else
            (case createBranch ok cfg branchName w1 of
               (Inl e, w2) \<Rightarrow> (Inl e, w2)
             | (Inr _, w2) \<Rightarrow>
                 (let commitMessage = render (commitMessageTemplate cfg) key timestamp
                  in case commitFile ok cfg branchName newContent commitMessage
                            (map_option sha currentFile) w2 of
                       (Inl e, w3) \<Rightarrow> (Inl e, w3)
                     | (Inr _, w3) \<Rightarrow>
                         (let prTitle = render (prTitleTemplate cfg) key timestamp;
                              prBody = render (prBodyTemplate cfg) key timestamp
                          in case createPullRequest ok cfg branchName prTitle prBody w3 of
                               (Inl e, w4) \<Rightarrow> (Inl e, w4)
                             | (Inr url, w4) \<Rightarrow> (Inr (success_result url), w4)))))"

definition branch_name :: "'r octokit \<Rightarrow> string \<Rightarrow> 'r world \<Rightarrow> string" where
  "branch_name ok key w = ''text-update-'' @ key @ ''-'' @ digits (date_now ok (snd w))"

definition error_message :: "thrown \<Rightarrow> string" where
  "error_message e = (case e of JsError m \<Rightarrow> m | NonError \<Rightarrow> ''Unknown error'')"

function syncContent ::
  "'r octokit \<Rightarrow> GitHubPRConfig \<Rightarrow> string \<Rightarrow> string \<Rightarrow> nat \<Rightarrow> 'r world
     \<Rightarrow> CreatePRResult \<times> 'r world" where
  "syncContent ok cfg key newContent retryCount w =
     (let timestamp = date_toISOString ok (snd w);
          branchName = branch_name ok key w
      in case sync_try ok cfg key newContent timestamp branchName w of
           (Inr res, w1) \<Rightarrow> (res, w1)
         | (Inl e, w1) \<Rightarrow>
             (let w2 = snd (deleteBranch ok cfg branchName w1)
              in if is_error_including e ''RACE_CONDITION'' then
                   (if retryCount < 1
                    then syncContent ok cfg key newContent (retryCount + 1) w2
                    else (failure_result ''Failed due to race condition after retry'', w2))
                 else (failure_result (error_message e), w2)))"
  by pat_completeness auto
termination
  by (relation "measure (\<lambda>(ok, cfg, key, newContent, retryCount, w). 1 - retryCount)") auto

declare syncContent.simps [simp del]

section \<open>The text store (services/text.service.ts)\<close>

subsection \<open>JavaScript values and objects\<close>

text \<open>
  The store hands out references to the objects it holds, so objects live in a heap:
  a list of cells, an address being an index, and a new object taking the next index.
  A value is a primitive or a reference; \<open>VBuiltin\<close> stands for a member inherited
  from \<^verbatim>\<open>Object.prototype\<close> (a function, or the prototype object itself), which is
  truthy and has no property named \<^verbatim>\<open>version\<close>. Numbers are kept to the integers
  together with \<^verbatim>\<open>NaN\<close>.
\<close>

type_synonym addr = nat

datatype jsnum = Finite int | NaN

datatype jsv = VUndefined | VNull | VBool bool | VNum jsnum | VStr string | VRef addr | VBuiltin

text \<open>
  A plain object with its own properties in insertion order (its prototype is
  \<^verbatim>\<open>Object.prototype\<close>), or an array.
\<close>

datatype cell = ObjCell "(string \<times> jsv) list" | ArrCell "jsv list"

text \<open>
  Where the result of an operation depends on parts of JavaScript that are left out
  (property access on arrays and primitives, replacing an object's prototype through
  \<^verbatim>\<open>__proto__\<close>, string conversion of objects, numbers beyond the exact integer
  range), the model says so with \<open>Unmodelled\<close> instead of inventing a value.
\<close>

datatype 'a outcome = Unmodelled | Returns 'a

fun truthy_v :: "jsv \<Rightarrow> bool" where
  "truthy_v VUndefined = False"
| "truthy_v VNull = False"
| "truthy_v (VBool b) = b"
| "truthy_v (VNum (Finite n)) = (n \<noteq> 0)"
| "truthy_v (VNum NaN) = False"
| "truthy_v (VStr s) = (s \<noteq> [])"
| "truthy_v (VRef a) = True"
| "truthy_v VBuiltin = True"

text \<open>\<^verbatim>\<open>a || b\<close>\<close>

definition or_else :: "jsv \<Rightarrow> jsv \<Rightarrow> jsv" where
  "or_else a b = (if truthy_v a then a else b)"

text \<open>The property names every plain object inherits from \<^verbatim>\<open>Object.prototype\<close>.\<close>

definition object_prototype_names :: "string list" where
  "object_prototype_names =
     [''constructor'', ''__defineGetter__'', ''__defineSetter__'', ''hasOwnProperty'',
      ''__lookupGetter__'', ''__lookupSetter__'', ''isPrototypeOf'', ''propertyIsEnumerable'',
      ''toString'', ''valueOf'', ''__proto__'', ''toLocaleString'']"

text \<open>
  The own properties of an object are listed as JavaScript enumerates them: the array
  indices first (canonical decimal numerals below \<^verbatim>\<open>2^32 - 1\<close>), in ascending
  order, then the other names in the order of their creation.
\<close>

fun nat_of_digits :: "nat \<Rightarrow> string \<Rightarrow> nat option" where
  "nat_of_digits n [] = Some n"
| "nat_of_digits n (c # cs) =
     (case map_of [(CHR ''0'', 0::nat), (CHR ''1'', 1), (CHR ''2'', 2), (CHR ''3'', 3),
                   (CHR ''4'', 4), (CHR ''5'', 5), (CHR ''6'', 6), (CHR ''7'', 7),
                   (CHR ''8'', 8), (CHR ''9'', 9)] c of
        None \<Rightarrow> None
      | Some d \<Rightarrow> nat_of_digits (10 * n + d) cs)"

definition array_index :: "string \<Rightarrow> nat option" where
  "array_index k =
     (if k = [] \<or> (hd k = CHR ''0'' \<and> k \<noteq> ''0'') then None
      else (case nat_of_digits 0 k of
              None \<Rightarrow> None
            | Some n \<Rightarrow> if n < 2 ^ 32 - 1 then Some n else None))"

fun insert_index :: "nat \<Rightarrow> string \<Rightarrow> jsv \<Rightarrow> (string \<times> jsv) list \<Rightarrow> (string \<times> jsv) list" where
  "insert_index n k v [] = [(k, v)]"
| "insert_index n k v (p # ps) =
     (case array_index (fst p) of
        None \<Rightarrow> (k, v) # p # ps
      | Some n' \<Rightarrow> if n' < n then p # insert_index n k v ps else (k, v) # p # ps)"

text \<open>
  Defining the own property \<open>k\<close>: an existing one keeps its place and takes the new
  value, a new one is entered where the enumeration order puts it.
\<close>

definition put_own :: "string \<Rightarrow> jsv \<Rightarrow> (string \<times> jsv) list \<Rightarrow> (string \<times> jsv) list" where
  "put_own k v ps =
     (if map_of ps k \<noteq> None then AList.update k v ps
      else (case array_index k of
              None \<Rightarrow> ps @ [(k, v)]
            | Some n \<Rightarrow> insert_index n k v ps))"

text \<open>\<^verbatim>\<open>obj[key]\<close>: an own property first, then the prototype.\<close>

definition get_member :: "cell list \<Rightarrow> jsv \<Rightarrow> string \<Rightarrow> jsv outcome" where
  "get_member h obj key =
     (case obj of
        VRef a \<Rightarrow>
          if a < length h then
            (case h ! a of
               ObjCell ps \<Rightarrow>
                 (case map_of ps key of
                    Some v \<Rightarrow> Returns v
                  | None \<Rightarrow>
                      if key \<in> set object_prototype_names then Returns VBuiltin
                      else Returns VUndefined)
             | ArrCell xs \<Rightarrow> Unmodelled)
          else Unmodelled
      | _ \<Rightarrow> Unmodelled)"

text \<open>
  \<^verbatim>\<open>obj[key] = v\<close>: an own property is overwritten, a new one is created (also
  when the name is inherited); \<^verbatim>\<open>__proto__\<close>, unless it is an own property, replaces
  the prototype instead.
\<close>

definition set_member :: "cell list \<Rightarrow> jsv \<Rightarrow> string \<Rightarrow> jsv \<Rightarrow> cell list outcome" where
  "set_member h obj key v =
     (case obj of
        VRef a \<Rightarrow>
          if a < length h then
            (case h ! a of
               ObjCell ps \<Rightarrow>
                 if key = ''__proto__'' \<and> map_of ps key = None then Unmodelled
                 else Returns (h[a := ObjCell (put_own key v ps)])
             | ArrCell xs \<Rightarrow> Unmodelled)
          else Unmodelled
      | _ \<Rightarrow> Unmodelled)"

text \<open>\<^verbatim>\<open>delete obj[key]\<close>: removes an own property, and does nothing otherwise.\<close>

definition delete_member :: "cell list \<Rightarrow> jsv \<Rightarrow> string \<Rightarrow> cell list outcome" where
  "delete_member h obj key =
     (case obj of
        VRef a \<Rightarrow>
          if a < length h then
            (case h ! a of
               ObjCell ps \<Rightarrow> Returns (h[a := ObjCell (AList.delete key ps)])
             | ArrCell xs \<Rightarrow> Unmodelled)
          else Unmodelled
      | _ \<Rightarrow> Unmodelled)"

text \<open>
  \<^verbatim>\<open>existing.version\<close> for a truthy \<open>existing\<close>: the own property of a plain object;
  arrays, primitives and built-in members have none.
\<close>

definition get_version :: "cell list \<Rightarrow> jsv \<Rightarrow> jsv" where
  "get_version h existing =
     (case existing of
        VRef a \<Rightarrow>
          (if a < length h then
             (case h ! a of
                ObjCell ps \<Rightarrow> (case map_of ps ''version'' of Some v \<Rightarrow> v | None \<Rightarrow> VUndefined)
              | ArrCell xs \<Rightarrow> VUndefined)
           else VUndefined)
      | _ \<Rightarrow> VUndefined)"

text \<open>\<^verbatim>\<open>v + 1\<close>\<close>

fun plus_one :: "jsv \<Rightarrow> jsv outcome" where
  "plus_one VUndefined = Returns (VNum NaN)"
| "plus_one VNull = Returns (VNum (Finite 1))"
| "plus_one (VBool b) = Returns (VNum (Finite (if b then 2 else 1)))"
| "plus_one (VNum (Finite n)) =
     (if \<bar>n\<bar> < 2 ^ 53 then Returns (VNum (Finite (n + 1))) else Unmodelled)"
| "plus_one (VNum NaN) = Returns (VNum NaN)"
| "plus_one (VStr s) = Returns (VStr (s @ ''1''))"
| "plus_one (VRef a) = Unmodelled"
| "plus_one VBuiltin = Unmodelled"

subsection \<open>Parsed JSON\<close>

text \<open>
  \<^verbatim>\<open>JSON.parse\<close> is a parameter of the model: a function from the text to the
  document it denotes, or \<open>None\<close> where it throws a \<^verbatim>\<open>SyntaxError\<close>. The document is
  then built in the heap, a new cell for every object and array; a repeated key keeps
  its place and takes the last value.
\<close>

datatype json = JNull | JBool bool | JNum int | JStr string | JArr "json list"
  | JObj "(string \<times> json) list"

fun alloc_json :: "json \<Rightarrow> cell list \<Rightarrow> jsv \<times> cell list"
  and alloc_elems :: "json list \<Rightarrow> cell list \<Rightarrow> jsv list \<times> cell list"
  and alloc_fields ::
    "(string \<times> jsv) list \<Rightarrow> (string \<times> json) list \<Rightarrow> cell list \<Rightarrow> (string \<times> jsv) list \<times> cell list"
  where
  "alloc_json JNull h = (VNull, h)"
| "alloc_json (JBool b) h = (VBool b, h)"
| "alloc_json (JNum n) h = (VNum (Finite n), h)"
| "alloc_json (JStr s) h = (VStr s, h)"
| "alloc_json (JArr xs) h =
     (case alloc_elems xs h of (vs, h1) \<Rightarrow> (VRef (length h1), h1 @ [ArrCell vs]))"
| "alloc_json (JObj fs) h =
     (case alloc_fields [] fs h of (ps, h1) \<Rightarrow> (VRef (length h1), h1 @ [ObjCell ps]))"
| "alloc_elems [] h = ([], h)"
| "alloc_elems (x # xs) h =
     (case alloc_json x h of (v, h1) \<Rightarrow>
        (case alloc_elems xs h1 of (vs, h2) \<Rightarrow> (v # vs, h2)))"
| "alloc_fields acc [] h = (acc, h)"
| "alloc_fields acc ((k, x) # fs) h =
     (case alloc_json x h of (v, h1) \<Rightarrow> alloc_fields (put_own k v acc) fs h1)"

text \<open>
  \<^verbatim>\<open>parsed.version\<close>, \<^verbatim>\<open>parsed.lastUpdated\<close>, \<^verbatim>\<open>parsed.texts\<close> for a parsed
  value other than \<^verbatim>\<open>null\<close>: no prototype has a member of these names, so the
  property is an own property of a plain object or is undefined.
\<close>

definition parsed_member :: "cell list \<Rightarrow> jsv \<Rightarrow> string \<Rightarrow> jsv" where
  "parsed_member h parsed name =
     (case parsed of
        VRef a \<Rightarrow>
          (if a < length h then
             (case h ! a of
                ObjCell ps \<Rightarrow> (case map_of ps name of Some v \<Rightarrow> v | None \<Rightarrow> VUndefined)
              | ArrCell xs \<Rightarrow> VUndefined)
           else VUndefined)
      | _ \<Rightarrow> VUndefined)"

subsection \<open>The service\<close>

text \<open>
  The declared types of \<^verbatim>\<open>TextArtifact\<close> are erased when the program runs: after
  \<^verbatim>\<open>loadFromJson\<close> the three fields hold whatever the document held.
\<close>

record TextArtifact =
  version :: jsv
  lastUpdated :: jsv
  texts :: jsv

record TextService =
  artifact :: TextArtifact
  heap :: "cell list"

text \<open>
  The constructor, run in heap \<open>h\<close> at time \<open>now\<close> (the text that
  \<^verbatim>\<open>new Date().toISOString()\<close> returns).
\<close>

definition new_TextService :: "cell list \<Rightarrow> string \<Rightarrow> TextService" where
  "new_TextService h now =
     \<lparr>artifact = \<lparr>version = VStr ''1.0.0'', lastUpdated = VStr now, texts = VRef (length h)\<rparr>,
      heap = h @ [ObjCell []]\<rparr>"

datatype load_error = SyntaxError | TypeError

text \<open>The \<^verbatim>\<open>try\<close> block of \<^verbatim>\<open>loadFromJson\<close>; reading a property of \<^verbatim>\<open>null\<close> throws.\<close>

definition load_try ::
  "(string \<Rightarrow> json option) \<Rightarrow> string \<Rightarrow> TextService \<Rightarrow> string \<Rightarrow> load_error + TextService" where
  "load_try parse now st jsonString =
     (case parse jsonString of
        None \<Rightarrow> Inl SyntaxError
      | Some doc \<Rightarrow>
          (case alloc_json doc (heap st) of
             (parsed, h1) \<Rightarrow>
               if parsed = VNull then Inl TypeError
               else
                 (let v = or_else (parsed_member h1 parsed ''version'') (VStr ''1.0.0'');
                      l = or_else (parsed_member h1 parsed ''lastUpdated'') (VStr now);
                      t = parsed_member h1 parsed ''texts''
                  in Inr (if truthy_v t
                          then \<lparr>artifact = \<lparr>version = v, lastUpdated = l, texts = t\<rparr>, heap = h1\<rparr>
                          else \<lparr>artifact = \<lparr>version = v, lastUpdated = l, texts = VRef (length h1)\<rparr>,
                                heap = h1 @ [ObjCell []]\<rparr>))))"

definition loadFromJson ::
  "(string \<Rightarrow> json option) \<Rightarrow> string \<Rightarrow> TextService \<Rightarrow> string \<Rightarrow> TextService" where
  "loadFromJson parse now st jsonString =
     (case load_try parse now st jsonString of
        Inr st' \<Rightarrow> st'
      | Inl e \<Rightarrow>
          \<lparr>artifact = \<lparr>version = VStr ''1.0.0'', lastUpdated = VStr now,
                        texts = VRef (length (heap st))\<rparr>,
           heap = heap st @ [ObjCell []]\<rparr>)"

definition getText :: "TextService \<Rightarrow> string \<Rightarrow> jsv outcome" where
  "getText st key =
     (case get_member (heap st) (texts (artifact st)) key of
        Unmodelled \<Rightarrow> Unmodelled
      | Returns m \<Rightarrow> Returns (or_else m VNull))"

text \<open>The object literal \<^verbatim>\<open>{ key, content, approvedAt, approvedBy, version }\<close>.\<close>

definition text_item :: "string \<Rightarrow> string \<Rightarrow> string \<Rightarrow> string option \<Rightarrow> jsv \<Rightarrow> cell" where
  "text_item key body approvedAt approvedBy ver =
     ObjCell [(''key'', VStr key), (''content'', VStr body), (''approvedAt'', VStr approvedAt),
              (''approvedBy'', (case approvedBy of None \<Rightarrow> VUndefined | Some a \<Rightarrow> VStr a)),
              (''version'', ver)]"

text \<open>
  \<^verbatim>\<open>updateText\<close>, with the two readings of the clock it makes: \<open>t1\<close> for
  \<^verbatim>\<open>approvedAt\<close>, then \<open>t2\<close> for \<^verbatim>\<open>lastUpdated\<close>. It returns the reference to the new
  item.
\<close>

definition updateText ::
  "TextService \<Rightarrow> string \<Rightarrow> string \<Rightarrow> string \<Rightarrow> string \<Rightarrow> string option
     \<Rightarrow> (jsv \<times> TextService) outcome" where
  "updateText st t1 t2 key body approvedBy =
     (case getText st key of
        Unmodelled \<Rightarrow> Unmodelled
      | Returns existing \<Rightarrow>
          (case (if truthy_v existing then plus_one (get_version (heap st) existing)
                 else Returns (VNum (Finite 1))) of
             Unmodelled \<Rightarrow> Unmodelled
           | Returns ver \<Rightarrow>
               (let textItem = text_item key body t1 approvedBy ver;
                    item = VRef (length (heap st))
                in case set_member (heap st @ [textItem]) (texts (artifact st)) key item of
                     Unmodelled \<Rightarrow> Unmodelled
                   | Returns h' \<Rightarrow>
                       Returns (item,
                                \<lparr>artifact = (artifact st)\<lparr>lastUpdated := VStr t2\<rparr>,
                                 heap = h'\<rparr>))))"

definition deleteText :: "TextService \<Rightarrow> string \<Rightarrow> string \<Rightarrow> (bool \<times> TextService) outcome" where
  "deleteText st now key =
     (case get_member (heap st) (texts (artifact st)) key of
        Unmodelled \<Rightarrow> Unmodelled
      | Returns m \<Rightarrow>
          if truthy_v m then
            (case delete_member (heap st) (texts (artifact st)) key of
               Unmodelled \<Rightarrow> Unmodelled
             | Returns h' \<Rightarrow>
                 Returns (True,
                          \<lparr>artifact = (artifact st)\<lparr>lastUpdated := VStr now\<rparr>, heap = h'\<rparr>))
          else Returns (False, st))"

text \<open>
  The own enumerable properties of a value, which the spread syntax and
  \<^verbatim>\<open>Object.keys\<close> go through: those of a plain object, the elements of an array
  under their indices, the characters of a string under theirs, and none for any other
  value. A reference to no cell is not a state of the program; there is no answer for
  it.
\<close>

definition own_entries :: "cell list \<Rightarrow> jsv \<Rightarrow> (string \<times> jsv) list option" where
  "own_entries h obj =
     (case obj of
        VRef a \<Rightarrow>
          if a < length h then
            (case h ! a of
               ObjCell ps \<Rightarrow> Some ps
             | ArrCell xs \<Rightarrow> Some (zip (map digits [0..<length xs]) xs))
          else None
      | VStr s \<Rightarrow> Some (zip (map digits [0..<length s]) (map (\<lambda>c. VStr [c]) s))
      | _ \<Rightarrow> Some [])"

text \<open>
  \<^verbatim>\<open>{ ...this.artifact.texts }\<close>: a new plain object with the own enumerable
  properties of the stored value; the property values, references to the items among
  them, are copied as they are.
\<close>

definition getAllTexts :: "TextService \<Rightarrow> (jsv \<times> TextService) outcome" where
  "getAllTexts st =
     (case own_entries (heap st) (texts (artifact st)) of
        None \<Rightarrow> Unmodelled
      | Some ps \<Rightarrow> Returns (VRef (length (heap st)), st\<lparr>heap := heap st @ [ObjCell ps]\<rparr>))"

text \<open>\<^verbatim>\<open>Object.keys(this.artifact.texts).length\<close>, the count of \<^verbatim>\<open>getMetadata\<close>.\<close>

definition count :: "TextService \<Rightarrow> nat outcome" where
  "count st =
     (case own_entries (heap st) (texts (artifact st)) of
        None \<Rightarrow> Unmodelled
      | Some ps \<Rightarrow> Returns (length ps))"

definition getMetadata :: "TextService \<Rightarrow> jsv \<times> jsv \<times> nat outcome" where
  "getMetadata st = (version (artifact st), lastUpdated (artifact st), count st)"

text \<open>The own properties of the item that \<^verbatim>\<open>getText\<close> returns, read through its reference.\<close>

definition item_fields :: "TextService \<Rightarrow> string \<Rightarrow> (string \<times> jsv) list outcome" where
  "item_fields st key =
     (case getText st key of
        Returns (VRef a) \<Rightarrow>
          if a < length (heap st) then
            (case heap st ! a of ObjCell ps \<Rightarrow> Returns ps | ArrCell xs \<Rightarrow> Unmodelled)
          else Unmodelled
      | _ \<Rightarrow> Unmodelled)"

subsection \<open>Sample stores and documents, after the service's tests\<close>

definition empty_store :: TextService where
  "empty_store = new_TextService [] ''2023-01-01T00:00:00.000Z''"

definition store_with_key1 :: TextService where
  "store_with_key1 =
     \<lparr>artifact = \<lparr>version = VStr ''1.0.0'', lastUpdated = VStr ''2023-01-02T00:00:00.001Z'',
                   texts = VRef 0\<rparr>,
      heap = [ObjCell [(''key1'', VRef 1)],
              text_item ''key1'' ''content1'' ''2023-01-02T00:00:00.000Z'' None (VNum (Finite 1))]\<rparr>"

definition store_after_listing :: TextService where
  "store_after_listing =
     store_with_key1\<lparr>heap := heap store_with_key1 @ [ObjCell [(''key1'', VRef 1)]]\<rparr>"

text \<open>
  The document of the test with missing fields, and a stand-in for \<^verbatim>\<open>JSON.parse\<close>
  that knows this document and \<^verbatim>\<open>null\<close> and rejects every other text.
\<close>

definition sample_document :: json where
  "sample_document =
     JObj [(''texts'',
            JObj [(''test-key'',
                   JObj [(''key'', JStr ''test-key''), (''content'', JStr ''test content'')])])]"

definition sample_parse :: "string \<Rightarrow> json option" where
  \<open>sample_parse s =
     (if s = ''{"texts":{"test-key":{"key":"test-key","content":"test content"}}}''
      then Some sample_document
      else if s = ''null'' then Some JNull
      else None)\<close>

section \<open>Observing a run of the synchronizer\<close>

text \<open>The commit calls and the branch deletions among the recorded calls.\<close>

fun is_commit :: "call \<Rightarrow> bool" where
  "is_commit (CommitFile b body m t) = True"
| "is_commit c = False"

fun is_delete :: "call \<Rightarrow> bool" where
  "is_delete (DeleteBranch b) = True"
| "is_delete c = False"

text \<open>
  The commit step of the attempt that starts in world \<open>w\<close>, when the attempt gets that
  far (the fetch returns, the content differs, the branch is created): the token passed
  to the commit, and what the commit returns. It is the \<^verbatim>\<open>try\<close> block up to and
  including its call of \<^verbatim>\<open>commitFile\<close>.
\<close>

definition commit_step ::
  "'r octokit \<Rightarrow> GitHubPRConfig \<Rightarrow> string \<Rightarrow> string \<Rightarrow> 'r world
     \<Rightarrow> (string option \<times> (thrown + unit) \<times> 'r world) option" where
  "commit_step ok cfg key newContent w =
     (case getCurrentFile ok cfg w of
        (Inl e, w1) \<Rightarrow> None
      | (Inr currentFile, w1) \<Rightarrow>
          if is_unchanged currentFile newContent then None
          else
            (case createBranch ok cfg (branch_name ok key w) w1 of
               (Inl e, w2) \<Rightarrow> None
             | (Inr _, w2) \<Rightarrow>
                 Some (map_option sha currentFile,
                       commitFile ok cfg (branch_name ok key w) newContent
                         (render (commitMessageTemplate cfg) key (date_toISOString ok (snd w)))
                         (map_option sha currentFile) w2)))"

text \<open>The world after the \<^verbatim>\<open>catch\<close> block's cleanup of the attempt started in \<open>w\<close>.\<close>

definition cleanup :: "'r octokit \<Rightarrow> GitHubPRConfig \<Rightarrow> string \<Rightarrow> 'r world \<Rightarrow> 'r world \<Rightarrow> 'r world" where
  "cleanup ok cfg key w w' = snd (deleteBranch ok cfg (branch_name ok key w) w')"

section \<open>A scripted remote, after the mocks of the service's tests\<close>

text \<open>
  The state of the scripted remote counts the fetches and the commits made so far.
  The \<open>n\<close>-th fetch answers with the \<open>n\<close>-th entry of \<open>fetches\<close>, the \<open>n\<close>-th commit
  with the \<open>n\<close>-th entry of \<open>commits\<close> (past the end of a script: the file does not
  exist, the commit succeeds); review creation and branch deletion always answer
  \<open>pr\<close> and \<open>del\<close>. The clock advances with every fetch.
\<close>

definition script_at :: "'a \<Rightarrow> 'a list \<Rightarrow> nat \<Rightarrow> 'a" where
  "script_at d xs n = (if n < length xs then xs ! n else d)"

definition mockOctokit ::
  "(thrown + content_data) list \<Rightarrow> (thrown + unit) list \<Rightarrow> (thrown + string) \<Rightarrow> (thrown + unit)
     \<Rightarrow> (nat \<times> nat) octokit" where
  "mockOctokit fetches commits pr del =
     \<lparr>repos_getContent = (\<lambda>owner rp path ref (f, c).
          (script_at (Inl (JsError ''Not Found'')) fetches f, (Suc f, c))),
      repos_getBranch = (\<lambda>owner rp br r. (Inr ''def456'', r)),
      git_createRef = (\<lambda>owner rp ref tip r. (Inr (), r)),
      repos_createOrUpdateFileContents = (\<lambda>owner rp path message body fileSha br (f, c).
          (script_at (Inr ()) commits c, (f, Suc c))),
      pulls_create = (\<lambda>owner rp title body head base r. (pr, r)),
      git_deleteRef = (\<lambda>owner rp ref r. (del, r)),
      date_toISOString = (\<lambda>(f, c). ''2024-01-01T00:00:0'' @ digits f @ ''.000Z''),
      date_now = (\<lambda>(f, c). 1700 + f)\<rparr>"

definition mockEnv :: GitHubPRConfig where
  "mockEnv =
     \<lparr>token = ''test-token'', repo = ''test-owner/test-repo'', branch = ''main'',
      targetPath = ''artifacts/texts.json'',
      commitMessageTemplate = ''Update {key} - {timestamp}'',
      prTitleTemplate = ''Update: {key}'',
      prBodyTemplate = ''PR for {key}''\<rparr>"

definition start :: "(nat \<times> nat) world" where
  "start = ([], (0, 0))"

text \<open>
  The scenarios of the tests: the remote file exists with other content; a commit is
  rejected because the sha does not match; the second fetch sees the other writer's
  file under a new sha.
\<close>

definition old_file :: "thrown + content_data" where
  "old_file = Inr (Entry ''file'' ''abc123'' ''old content'')"

definition newer_file :: "thrown + content_data" where
  "newer_file = Inr (Entry ''file'' ''def789'' ''their content'')"

definition sha_mismatch :: "thrown + unit" where
  "sha_mismatch = Inl (JsError ''SHA does not match'')"

definition conflict_twice_remote :: "(nat \<times> nat) octokit" where
  "conflict_twice_remote =
     mockOctokit [old_file, newer_file] [sha_mismatch, sha_mismatch] (Inr ''pr-url'') (Inr ())"

definition conflict_once_remote :: "(nat \<times> nat) octokit" where
  "conflict_once_remote =
     mockOctokit [old_file, newer_file] [sha_mismatch] (Inr ''pr-url'') (Inr ())"

definition review_fails_remote :: "(nat \<times> nat) octokit" where
  "review_fails_remote =
     mockOctokit [old_file, newer_file] [sha_mismatch] (Inl (JsError ''Validation Failed''))
       (Inr ())"

definition fetch_fails_remote :: "string \<Rightarrow> (nat \<times> nat) octokit" where
  "fetch_fails_remote msg =
     mockOctokit [Inl (JsError msg)] [] (Inr ''pr-url'')
       (Inl (JsError ''Reference does not exist''))"

text \<open>A remote whose fetch fails twice with an error that is not a rejected commit.\<close>

definition fetch_race_remote :: "(nat \<times> nat) octokit" where
  "fetch_race_remote =
     mockOctokit [Inl (JsError ''RACE_CONDITION: rate limited''),
                  Inl (JsError ''RACE_CONDITION: rate limited'')] [] (Inr ''pr-url'') (Inr ())"

text \<open>The worlds of these scenarios after the first and after the second commit.\<close>

definition after_first_commit :: "(nat \<times> nat) world" where
  "after_first_commit =
     ([GetCurrentFile, CreateBranch ''text-update-test-key-1700'',
       CommitFile ''text-update-test-key-1700'' ''new content''
         ''Update test-key - 2024-01-01T00:00:00.000Z'' (Some ''abc123'')],
      (1, 1))"

definition after_second_commit :: "(nat \<times> nat) world" where
  "after_second_commit =
     ([GetCurrentFile, CreateBranch ''text-update-test-key-1700'',
       CommitFile ''text-update-test-key-1700'' ''new content''
         ''Update test-key - 2024-01-01T00:00:00.000Z'' (Some ''abc123''),
       DeleteBranch ''text-update-test-key-1700'', GetCurrentFile,
       CreateBranch ''text-update-test-key-1701'',
       CommitFile ''text-update-test-key-1701'' ''new content''
         ''Update test-key - 2024-01-01T00:00:01.000Z'' (Some ''def789'')],
      (2, 2))"

definition conflict_error :: thrown where
  "conflict_error = JsError ''RACE_CONDITION: File was modified by another process''"

section \<open>Properties of the synchronizer\<close>

subsection \<open>The calls each remote operation records\<close>

lemma getCurrentFile_log: "fst (snd (getCurrentFile ok cfg w)) = fst w @ [GetCurrentFile]"
  by (simp add: getCurrentFile_def Let_def split: prod.splits)

lemma createBranch_log: "fst (snd (createBranch ok cfg b w)) = fst w @ [CreateBranch b]"
  by (simp add: createBranch_def Let_def split: prod.splits sum.splits)

lemma commitFile_log:
  "fst (snd (commitFile ok cfg b body msg baseSha w)) =
     fst w @ [CommitFile b body msg baseSha] @ (if truthy baseSha then [] else [GetCurrentFile])"
proof (cases "truthy baseSha")
  case True
  then show ?thesis
    by (simp add: commitFile_def Let_def split: prod.splits sum.splits)
next
  case False
  obtain r w' where g:
    "getCurrentFile ok cfg (fst w @ [CommitFile b body msg baseSha], snd w) = (r, w')"
    by (cases "getCurrentFile ok cfg (fst w @ [CommitFile b body msg baseSha], snd w)")
  have "fst w' = fst w @ [CommitFile b body msg baseSha] @ [GetCurrentFile]"
    using getCurrentFile_log [of ok cfg "(fst w @ [CommitFile b body msg baseSha], snd w)"] g
    by simp
  with False g show ?thesis
    by (auto simp add: commitFile_def Let_def split: prod.splits sum.splits)
qed

lemma createPullRequest_log:
  "fst (snd (createPullRequest ok cfg b t body w)) = fst w @ [CreatePullRequest b t body]"
  by (simp add: createPullRequest_def Let_def split: prod.splits)

lemma deleteBranch_log: "fst (snd (deleteBranch ok cfg b w)) = fst w @ [DeleteBranch b]"
  by (simp add: deleteBranch_def Let_def split: prod.splits)

lemmas mock_simps =
  mockOctokit_def mockEnv_def start_def script_at_def owner_repo_def
  getCurrentFile_def createBranch_def commitFile_def createPullRequest_def deleteBranch_def
  sync_try_def branch_name_def render_def replace_def digits.simps Let_def
  is_unchanged_def commit_step_def cleanup_def
  old_file_def newer_file_def sha_mismatch_def conflict_twice_remote_def
  conflict_once_remote_def review_fails_remote_def fetch_fails_remote_def
  fetch_race_remote_def
  after_first_commit_def after_second_commit_def conflict_error_def
  no_change_result_def success_result_def failure_result_def error_message_def
  includes_str_def

subsection \<open>Unchanged content\<close>

text \<open>
  C1. When the fetch at the start of a sync call returns a file whose content equals
  the local body, the call returns the no-change result, and the only remote operation
  it has called is that fetch: no branch is created, nothing is committed, no review
  is opened and no branch is deleted.
\<close>

theorem sync_no_change:
  assumes "getCurrentFile ok cfg w = (Inr (Some f), w1)"
    and "content f = newContent"
  shows "syncContent ok cfg key newContent retryCount w = (no_change_result, w1)
       \<and> fst w1 = fst w @ [GetCurrentFile]"
proof -
  have "fst w1 = fst w @ [GetCurrentFile]"
    using getCurrentFile_log [of ok cfg w] assms(1) by simp
  moreover have "syncContent ok cfg key newContent retryCount w = (no_change_result, w1)"
    using assms by (simp add: syncContent.simps sync_try_def is_unchanged_def)
  ultimately show ?thesis by simp
qed

theorem sync_no_change_witness:
  "getCurrentFile
     (mockOctokit [Inr (Entry ''file'' ''abc123'' ''same content'')] [] (Inr ''pr-url'') (Inr ()))
     mockEnv start
     = (Inr (Some \<lparr>sha = ''abc123'', content = ''same content''\<rparr>), ([GetCurrentFile], (1, 0)))
   \<and> syncContent
     (mockOctokit [Inr (Entry ''file'' ''abc123'' ''same content'')] [] (Inr ''pr-url'') (Inr ()))
     mockEnv ''test-key'' ''same content'' 0 start
     = (no_change_result, ([GetCurrentFile], (1, 0)))"
proof -
  let ?ok = "mockOctokit [Inr (Entry ''file'' ''abc123'' ''same content'')] []
               (Inr ''pr-url'') (Inr ())"
  have g: "getCurrentFile ?ok mockEnv start
      = (Inr (Some \<lparr>sha = ''abc123'', content = ''same content''\<rparr>), ([GetCurrentFile], (1, 0)))"
    by (simp add: mock_simps)
  have c: "content \<lparr>sha = ''abc123'', content = ''same content''\<rparr> = ''same content''"
    by simp
  show ?thesis
    using sync_no_change [OF g c, of "''test-key''" 0] g by simp
qed

subsection \<open>The try block and its handler\<close>

lemma getCurrentFile_logD:
  "getCurrentFile ok cfg w = (r, w') \<Longrightarrow> fst w' = fst w @ [GetCurrentFile]"
  using getCurrentFile_log [of ok cfg w] by simp

lemma createBranch_logD:
  "createBranch ok cfg b w = (r, w') \<Longrightarrow> fst w' = fst w @ [CreateBranch b]"
  using createBranch_log [of ok cfg b w] by simp

lemma commitFile_logD:
  "commitFile ok cfg b body msg t w = (r, w') \<Longrightarrow>
     fst w' = fst w @ [CommitFile b body msg t] @ (if truthy t then [] else [GetCurrentFile])"
  using commitFile_log [of ok cfg b body msg t w] by simp

lemma createPullRequest_logD:
  "createPullRequest ok cfg b t body w = (r, w') \<Longrightarrow> fst w' = fst w @ [CreatePullRequest b t body]"
  using createPullRequest_log [of ok cfg b t body w] by simp

lemma cleanup_log: "fst (cleanup ok cfg key w w') = fst w' @ [DeleteBranch (branch_name ok key w)]"
  by (simp add: cleanup_def deleteBranch_log)

lemma commit_step_log:
  assumes "commit_step ok cfg key body w = Some (t, r, w3)"
  shows "filter is_commit (fst w3) = filter is_commit (fst w) @
           [CommitFile (branch_name ok key w) body
              (render (commitMessageTemplate cfg) key (date_toISOString ok (snd w))) t]"
    and "filter is_delete (fst w3) = filter is_delete (fst w)"
  using assms
  by (auto simp: commit_step_def split: prod.splits sum.splits if_splits
      dest!: getCurrentFile_logD createBranch_logD commitFile_logD)

lemma sync_try_commit_fails:
  assumes "commit_step ok cfg key body w = Some (t, Inl e, w3)"
  shows "sync_try ok cfg key body (date_toISOString ok (snd w)) (branch_name ok key w) w = (Inl e, w3)"
  using assms
  by (auto simp: commit_step_def sync_try_def split: prod.splits sum.splits if_splits)

lemma sync_try_commit_ok:
  assumes "commit_step ok cfg key body w = Some (t, Inr u, w3)"
  shows "sync_try ok cfg key body (date_toISOString ok (snd w)) (branch_name ok key w) w =
     (case createPullRequest ok cfg (branch_name ok key w)
             (render (prTitleTemplate cfg) key (date_toISOString ok (snd w)))
             (render (prBodyTemplate cfg) key (date_toISOString ok (snd w))) w3 of
        (Inl e, w4) \<Rightarrow> (Inl e, w4)
      | (Inr url, w4) \<Rightarrow> (Inr (success_result url), w4))"
  using assms
  by (auto simp: commit_step_def sync_try_def split: prod.splits sum.splits if_splits)

lemma sync_try_deletes:
  "filter is_delete (fst (snd (sync_try ok cfg key body ts bn w))) = filter is_delete (fst w)"
  by (auto simp: sync_try_def split: prod.splits sum.splits if_splits
      dest!: getCurrentFile_logD createBranch_logD commitFile_logD createPullRequest_logD)

lemma syncContent_caught:
  assumes "sync_try ok cfg key body (date_toISOString ok (snd w)) (branch_name ok key w) w = (Inl e, w1)"
  shows "syncContent ok cfg key body rc w =
     (if is_error_including e ''RACE_CONDITION'' then
        (if rc < 1 then syncContent ok cfg key body (rc + 1) (cleanup ok cfg key w w1)
         else (failure_result ''Failed due to race condition after retry'', cleanup ok cfg key w w1))
      else (failure_result (error_message e), cleanup ok cfg key w w1))"
  using assms by (subst syncContent.simps) (simp add: cleanup_def Let_def)

lemma syncContent_returned:
  assumes "sync_try ok cfg key body (date_toISOString ok (snd w)) (branch_name ok key w) w = (Inr res, w1)"
  shows "syncContent ok cfg key body rc w = (res, w1)"
  using assms by (subst syncContent.simps) (simp add: Let_def)

lemma syncContent_last_world:
  assumes "1 \<le> rc"
  shows "snd (syncContent ok cfg key body rc w) =
     (case sync_try ok cfg key body (date_toISOString ok (snd w)) (branch_name ok key w) w of
        (Inr res, w1) \<Rightarrow> w1
      | (Inl e, w1) \<Rightarrow> cleanup ok cfg key w w1)"
  using assms
  by (subst syncContent.simps) (simp add: cleanup_def Let_def split: prod.splits sum.splits)

lemma sync_try_commits:
  assumes "commit_step ok cfg key body w = Some (t, r, w3)"
  shows "filter is_commit (fst (snd (sync_try ok cfg key body (date_toISOString ok (snd w))
            (branch_name ok key w) w))) = filter is_commit (fst w3)"
proof (cases r)
  case (Inl e)
  with assms show ?thesis by (simp add: sync_try_commit_fails)
next
  case (Inr u)
  with assms show ?thesis
    by (auto simp: sync_try_commit_ok split: prod.splits sum.splits
        dest!: createPullRequest_logD)
qed

lemma syncContent_last_commits:
  assumes "commit_step ok cfg key body w = Some (t, r, w3)" and "1 \<le> rc"
  shows "filter is_commit (fst (snd (syncContent ok cfg key body rc w))) = filter is_commit (fst w3)"
proof -
  obtain x w1 where st:
    "sync_try ok cfg key body (date_toISOString ok (snd w)) (branch_name ok key w) w = (x, w1)"
    by (cases "sync_try ok cfg key body (date_toISOString ok (snd w)) (branch_name ok key w) w")
  have "filter is_commit (fst w1) = filter is_commit (fst w3)"
    using sync_try_commits [OF assms(1)] st by simp
  then show ?thesis
    using st assms(2)
    by (cases x) (simp_all add: syncContent_last_world cleanup_log)
qed

subsection \<open>The scenarios, evaluated\<close>

lemma twice_first:
  "commit_step conflict_twice_remote mockEnv ''test-key'' ''new content'' start
     = Some (Some ''abc123'', Inl conflict_error, after_first_commit)"
  by (simp add: mock_simps)

lemma twice_second:
  "commit_step conflict_twice_remote mockEnv ''test-key'' ''new content''
     (cleanup conflict_twice_remote mockEnv ''test-key'' start after_first_commit)
     = Some (Some ''def789'', Inl conflict_error, after_second_commit)"
  by (simp add: mock_simps)

lemma conflict_error_race: "is_error_including conflict_error ''RACE_CONDITION''"
  by (simp add: conflict_error_def includes_str_def)

lemma once_first:
  "commit_step conflict_once_remote mockEnv ''test-key'' ''new content'' start
     = Some (Some ''abc123'', Inl conflict_error, after_first_commit)"
  by (simp add: mock_simps)

lemma once_second:
  "commit_step conflict_once_remote mockEnv ''test-key'' ''new content''
     (cleanup conflict_once_remote mockEnv ''test-key'' start after_first_commit)
     = Some (Some ''def789'', Inr (), after_second_commit)"
  by (simp add: mock_simps)

lemma fetch_fails_try:
  "sync_try (fetch_fails_remote ''API Error'') mockEnv ''test-key'' ''new content''
     (date_toISOString (fetch_fails_remote ''API Error'') (snd start))
     (branch_name (fetch_fails_remote ''API Error'') ''test-key'' start) start
   = (Inl (JsError ''API Error''), ([GetCurrentFile], (1, 0)))"
  by (simp add: mock_simps)

subsection \<open>Conflicts and the single retry\<close>

text \<open>
  C2 (as the code has it). When the commit of the first attempt and the commit of the
  retry both fail with a conflict, the call has made exactly two commit calls and two
  branch deletions (one for the branch of each attempt) and returns a failure whose
  reason is the literal \<^verbatim>\<open>Failed due to race condition after retry\<close>. A failure
  whose caught error is not an \<^verbatim>\<open>Error\<close> with \<^verbatim>\<open>RACE_CONDITION\<close> in its message,
  and whose reported message is not that same string, is a different result.
\<close>

theorem sync_conflict_after_retry:
  assumes "commit_step ok cfg key body w = Some (t1, Inl e1, w3)"
    and "is_error_including e1 ''RACE_CONDITION''"
    and "commit_step ok cfg key body (cleanup ok cfg key w w3) = Some (t2, Inl e2, w7)"
    and "is_error_including e2 ''RACE_CONDITION''"
    and "sync_try ok' cfg' key' body' (date_toISOString ok' (snd w')) (branch_name ok' key' w') w'
           = (Inl e', w1')"
    and "\<not> is_error_including e' ''RACE_CONDITION''"
    and "error_message e' \<noteq> ''Failed due to race condition after retry''"
  shows "fst (syncContent ok cfg key body 0 w) =
           failure_result ''Failed due to race condition after retry''
       \<and> length (filter is_commit (fst (snd (syncContent ok cfg key body 0 w)))) =
           length (filter is_commit (fst w)) + 2
       \<and> filter is_delete (fst (snd (syncContent ok cfg key body 0 w))) =
           filter is_delete (fst w) @
             [DeleteBranch (branch_name ok key w),
              DeleteBranch (branch_name ok key (cleanup ok cfg key w w3))]
       \<and> fst (syncContent ok' cfg' key' body' rc' w') \<noteq> fst (syncContent ok cfg key body 0 w)"
proof -
  let ?w4 = "cleanup ok cfg key w w3"
  have r: "syncContent ok cfg key body 0 w =
      (failure_result ''Failed due to race condition after retry'', cleanup ok cfg key ?w4 w7)"
    using assms
    by (simp add: syncContent_caught [OF sync_try_commit_fails [OF assms(1)]]
        syncContent_caught [OF sync_try_commit_fails [OF assms(3)]])
  have "fst (syncContent ok' cfg' key' body' rc' w') = failure_result (error_message e')"
    using assms(6) by (simp add: syncContent_caught [OF assms(5)])
  then have d: "fst (syncContent ok' cfg' key' body' rc' w') \<noteq> fst (syncContent ok cfg key body 0 w)"
    using assms(7) by (simp add: r failure_result_def)
  show ?thesis
    using commit_step_log [OF assms(1)] commit_step_log [OF assms(3)] d
    by (simp add: r cleanup_log)
qed

theorem sync_conflict_after_retry_witness:
  "syncContent conflict_twice_remote mockEnv ''test-key'' ''new content'' 0 start
     = (failure_result ''Failed due to race condition after retry'',
        (fst after_second_commit @ [DeleteBranch ''text-update-test-key-1701''], (2, 2)))
   \<and> length (filter is_commit
         (fst after_second_commit @ [DeleteBranch ''text-update-test-key-1701''])) = 2
   \<and> filter is_delete (fst after_second_commit @ [DeleteBranch ''text-update-test-key-1701''])
       = [DeleteBranch ''text-update-test-key-1700'', DeleteBranch ''text-update-test-key-1701'']
   \<and> fst (syncContent (fetch_fails_remote ''API Error'') mockEnv ''test-key''
              ''new content'' 0 start)
       \<noteq> failure_result ''Failed due to race condition after retry''"
proof -
  have n: "\<not> is_error_including (JsError ''API Error'') ''RACE_CONDITION''"
    by (simp add: includes_str_def)
  have m: "error_message (JsError ''API Error'') \<noteq> ''Failed due to race condition after retry''"
    by (simp add: error_message_def)
  have r: "syncContent conflict_twice_remote mockEnv ''test-key'' ''new content'' 0 start
     = (failure_result ''Failed due to race condition after retry'',
        (fst after_second_commit @ [DeleteBranch ''text-update-test-key-1701''], (2, 2)))"
    by (simp add: syncContent.simps mock_simps)
  show ?thesis
    using sync_conflict_after_retry [OF twice_first conflict_error_race twice_second
        conflict_error_race fetch_fails_try n m, of 0]
    by (simp add: r after_second_commit_def)
qed

text \<open>
  C2 as the specification words it does not hold: the reason is not the literal
  \<^verbatim>\<open>conflict after retry\<close>, and it does not tell a conflict after the retry from
  other failures. A failed fetch whose error message happens to be the conflict reason
  gives the very same result, and so does a fetch that fails twice with an error whose
  message holds \<^verbatim>\<open>RACE_CONDITION\<close>, where no commit was made at all.
\<close>

theorem sync_conflict_after_retry_counterexample:
  "commit_step conflict_twice_remote mockEnv ''test-key'' ''new content'' start
     = Some (Some ''abc123'', Inl conflict_error, after_first_commit)
   \<and> commit_step conflict_twice_remote mockEnv ''test-key'' ''new content''
       (cleanup conflict_twice_remote mockEnv ''test-key'' start after_first_commit)
     = Some (Some ''def789'', Inl conflict_error, after_second_commit)
   \<and> is_error_including conflict_error ''RACE_CONDITION''
   \<and> error (fst (syncContent conflict_twice_remote mockEnv ''test-key'' ''new content'' 0 start))
       \<noteq> Some ''conflict after retry''
   \<and> fst (syncContent (fetch_fails_remote ''Failed due to race condition after retry'')
            mockEnv ''test-key'' ''new content'' 0 start)
       = fst (syncContent conflict_twice_remote mockEnv ''test-key'' ''new content'' 0 start)
   \<and> fst (syncContent fetch_race_remote mockEnv ''test-key'' ''new content'' 0 start)
       = fst (syncContent conflict_twice_remote mockEnv ''test-key'' ''new content'' 0 start)
   \<and> filter is_commit
         (fst (snd (syncContent fetch_race_remote mockEnv ''test-key'' ''new content'' 0 start)))
       = []"
proof -
  have a: "fst (syncContent conflict_twice_remote mockEnv ''test-key'' ''new content'' 0 start)
      = failure_result ''Failed due to race condition after retry''"
    by (simp add: syncContent.simps mock_simps)
  have b: "fst (syncContent (fetch_fails_remote ''Failed due to race condition after retry'')
            mockEnv ''test-key'' ''new content'' 0 start)
      = failure_result ''Failed due to race condition after retry''"
    by (simp add: syncContent.simps mock_simps)
  have c: "syncContent fetch_race_remote mockEnv ''test-key'' ''new content'' 0 start
      = (failure_result ''Failed due to race condition after retry'',
         ([GetCurrentFile, DeleteBranch ''text-update-test-key-1700'',
           GetCurrentFile, DeleteBranch ''text-update-test-key-1701''], (2, 0)))"
    by (simp add: syncContent.simps mock_simps)
  show ?thesis
    using twice_first twice_second conflict_error_race
    by (simp add: a b c failure_result_def)
qed

text \<open>
  C3 (as the code has it). When the commit of the first attempt fails with a conflict,
  the commit of the retry succeeds and the review request of the retry is opened, the
  call returns the success result carrying the review's reference, after exactly two
  commit calls and exactly one branch deletion, that of the first attempt's branch.
\<close>

theorem sync_conflict_then_success:
  assumes "commit_step ok cfg key body w = Some (t1, Inl e1, w3)"
    and "is_error_including e1 ''RACE_CONDITION''"
    and "commit_step ok cfg key body (cleanup ok cfg key w w3) = Some (t2, Inr u, w7)"
    and "createPullRequest ok cfg (branch_name ok key (cleanup ok cfg key w w3))
           (render (prTitleTemplate cfg) key (date_toISOString ok (snd (cleanup ok cfg key w w3))))
           (render (prBodyTemplate cfg) key (date_toISOString ok (snd (cleanup ok cfg key w w3))))
           w7 = (Inr url, w8)"
  shows "syncContent ok cfg key body 0 w = (success_result url, w8)
       \<and> length (filter is_commit (fst w8)) = length (filter is_commit (fst w)) + 2
       \<and> filter is_delete (fst w8) =
           filter is_delete (fst w) @ [DeleteBranch (branch_name ok key w)]"
proof -
  let ?w4 = "cleanup ok cfg key w w3"
  have "syncContent ok cfg key body 0 w = syncContent ok cfg key body 1 ?w4"
    using assms(2) by (simp add: syncContent_caught [OF sync_try_commit_fails [OF assms(1)]])
  moreover have "syncContent ok cfg key body 1 ?w4 = (success_result url, w8)"
    by (rule syncContent_returned) (simp add: sync_try_commit_ok [OF assms(3)] assms(4))
  moreover have "fst w8 = fst w7 @
      [CreatePullRequest (branch_name ok key ?w4)
         (render (prTitleTemplate cfg) key (date_toISOString ok (snd ?w4)))
         (render (prBodyTemplate cfg) key (date_toISOString ok (snd ?w4)))]"
    using createPullRequest_logD [OF assms(4)] .
  ultimately show ?thesis
    using commit_step_log [OF assms(1)] commit_step_log [OF assms(3)]
    by (simp add: cleanup_log)
qed

theorem sync_conflict_then_success_witness:
  "syncContent conflict_once_remote mockEnv ''test-key'' ''new content'' 0 start
     = (success_result ''pr-url'',
        (fst after_second_commit @
           [CreatePullRequest ''text-update-test-key-1701'' ''Update: test-key'' ''PR for test-key''],
         (2, 2)))
   \<and> length (filter is_commit (fst after_second_commit @
           [CreatePullRequest ''text-update-test-key-1701'' ''Update: test-key'' ''PR for test-key'']))
       = 2
   \<and> filter is_delete (fst after_second_commit @
           [CreatePullRequest ''text-update-test-key-1701'' ''Update: test-key'' ''PR for test-key''])
       = [DeleteBranch ''text-update-test-key-1700'']"
proof -
  let ?w4 = "cleanup conflict_once_remote mockEnv ''test-key'' start after_first_commit"
  have pr: "createPullRequest conflict_once_remote mockEnv
       (branch_name conflict_once_remote ''test-key'' ?w4)
       (render (prTitleTemplate mockEnv) ''test-key''
          (date_toISOString conflict_once_remote (snd ?w4)))
       (render (prBodyTemplate mockEnv) ''test-key''
          (date_toISOString conflict_once_remote (snd ?w4)))
       after_second_commit
     = (Inr ''pr-url'',
        (fst after_second_commit @
           [CreatePullRequest ''text-update-test-key-1701'' ''Update: test-key'' ''PR for test-key''],
         (2, 2)))"
    by (simp add: mock_simps)
  show ?thesis
    using sync_conflict_then_success [OF once_first conflict_error_race once_second pr]
    by (simp add: start_def after_second_commit_def)
qed

text \<open>
  C3 without the condition on the review request does not hold: when the retry's commit
  succeeds and opening the review fails, the call returns a failure and has deleted
  both branches.
\<close>

theorem sync_conflict_then_success_counterexample:
  "commit_step review_fails_remote mockEnv ''test-key'' ''new content'' start
     = Some (Some ''abc123'', Inl conflict_error, after_first_commit)
   \<and> is_error_including conflict_error ''RACE_CONDITION''
   \<and> commit_step review_fails_remote mockEnv ''test-key'' ''new content''
       (cleanup review_fails_remote mockEnv ''test-key'' start after_first_commit)
     = Some (Some ''def789'', Inr (), after_second_commit)
   \<and> fst (syncContent review_fails_remote mockEnv ''test-key'' ''new content'' 0 start)
     = failure_result ''Validation Failed''
   \<and> filter is_delete
       (fst (snd (syncContent review_fails_remote mockEnv ''test-key'' ''new content'' 0 start)))
     = [DeleteBranch ''text-update-test-key-1700'', DeleteBranch ''text-update-test-key-1701'']"
proof -
  have a: "commit_step review_fails_remote mockEnv ''test-key'' ''new content'' start
     = Some (Some ''abc123'', Inl conflict_error, after_first_commit)"
    by (simp add: mock_simps)
  have b: "commit_step review_fails_remote mockEnv ''test-key'' ''new content''
       (cleanup review_fails_remote mockEnv ''test-key'' start after_first_commit)
     = Some (Some ''def789'', Inr (), after_second_commit)"
    by (simp add: mock_simps)
  have c: "syncContent review_fails_remote mockEnv ''test-key'' ''new content'' 0 start
     = (failure_result ''Validation Failed'',
        (fst after_second_commit @
           [CreatePullRequest ''text-update-test-key-1701'' ''Update: test-key'' ''PR for test-key'',
            DeleteBranch ''text-update-test-key-1701''], (2, 2)))"
    by (simp add: syncContent.simps mock_simps)
  show ?thesis
    using a b conflict_error_race by (simp add: c after_second_commit_def)
qed

text \<open>
  C4. After a conflict on the first attempt, the retry starts by fetching the remote
  file again; when it gets to its commit, that commit carries the token of the file
  just fetched, and both commits carry the body passed to the call. No other commit is
  made.
\<close>

theorem sync_retry_refetches_same_body:
  assumes "commit_step ok cfg key body w = Some (t1, Inl e1, w3)"
    and "is_error_including e1 ''RACE_CONDITION''"
    and "getCurrentFile ok cfg (cleanup ok cfg key w w3) = (Inr refetched, w5)"
    and "commit_step ok cfg key body (cleanup ok cfg key w w3) = Some (t2, r2, w7)"
  shows "fst w5 = fst w3 @ [DeleteBranch (branch_name ok key w), GetCurrentFile]
       \<and> t2 = map_option sha refetched
       \<and> filter is_commit (fst (snd (syncContent ok cfg key body 0 w))) =
           filter is_commit (fst w) @
             [CommitFile (branch_name ok key w) body
                (render (commitMessageTemplate cfg) key (date_toISOString ok (snd w))) t1,
              CommitFile (branch_name ok key (cleanup ok cfg key w w3)) body
                (render (commitMessageTemplate cfg) key
                   (date_toISOString ok (snd (cleanup ok cfg key w w3))))
                (map_option sha refetched)]"
proof -
  let ?w4 = "cleanup ok cfg key w w3"
  have a: "fst w5 = fst w3 @ [DeleteBranch (branch_name ok key w), GetCurrentFile]"
    using getCurrentFile_logD [OF assms(3)] by (simp add: cleanup_log)
  have b: "t2 = map_option sha refetched"
    using assms(3,4) by (auto simp: commit_step_def split: prod.splits sum.splits if_splits)
  have "syncContent ok cfg key body 0 w = syncContent ok cfg key body 1 ?w4"
    using assms(2) by (simp add: syncContent_caught [OF sync_try_commit_fails [OF assms(1)]])
  then have "filter is_commit (fst (snd (syncContent ok cfg key body 0 w))) =
      filter is_commit (fst w7)"
    using syncContent_last_commits [OF assms(4), of 1] by simp
  then show ?thesis
    using a b commit_step_log(1) [OF assms(1)] commit_step_log(1) [OF assms(4)]
    by (simp add: cleanup_log)
qed

theorem sync_retry_refetches_same_body_witness:
  "filter is_commit
     (fst (snd (syncContent conflict_once_remote mockEnv ''test-key'' ''new content'' 0 start)))
   = [CommitFile ''text-update-test-key-1700'' ''new content''
        ''Update test-key - 2024-01-01T00:00:00.000Z'' (Some ''abc123''),
      CommitFile ''text-update-test-key-1701'' ''new content''
        ''Update test-key - 2024-01-01T00:00:01.000Z'' (Some ''def789'')]"
proof -
  let ?w4 = "cleanup conflict_once_remote mockEnv ''test-key'' start after_first_commit"
  have g: "getCurrentFile conflict_once_remote mockEnv ?w4
     = (Inr (Some \<lparr>sha = ''def789'', content = ''their content''\<rparr>),
        (fst after_first_commit @ [DeleteBranch ''text-update-test-key-1700'', GetCurrentFile],
         (2, 1)))"
    by (simp add: mock_simps)
  show ?thesis
    using sync_retry_refetches_same_body [OF once_first conflict_error_race g once_second]
    by (simp add: mock_simps)
qed

subsection \<open>Cleanup after a failed attempt\<close>

text \<open>
  C10. Whenever the \<^verbatim>\<open>try\<close> block of an attempt throws, at any step (also the first
  fetch or the creation of the branch), no branch deletion has been called inside the
  block, the cleanup calls the deletion exactly once, for the branch name of this
  attempt, and what the deletion answers has no part in the outcome: the call retries
  (a conflict, on the first attempt), or returns a failure whose reason is fixed by the
  error thrown (the conflict literal, the error's message, or \<^verbatim>\<open>Unknown error\<close>).
\<close>

theorem sync_failed_attempt_cleanup:
  assumes "sync_try ok cfg key body (date_toISOString ok (snd w)) (branch_name ok key w) w
             = (Inl e, w1)"
  shows "filter is_delete (fst w1) = filter is_delete (fst w)
       \<and> fst (cleanup ok cfg key w w1) = fst w1 @ [DeleteBranch (branch_name ok key w)]
       \<and> syncContent ok cfg key body rc w =
           (if is_error_including e ''RACE_CONDITION'' \<and> rc < 1
            then syncContent ok cfg key body (rc + 1) (cleanup ok cfg key w w1)
            else (failure_result
                    (if is_error_including e ''RACE_CONDITION''
                     then ''Failed due to race condition after retry''
                     else error_message e),
                  cleanup ok cfg key w w1))"
proof -
  have "filter is_delete (fst w1) = filter is_delete (fst w)"
    using sync_try_deletes [of ok cfg key body "date_toISOString ok (snd w)"
        "branch_name ok key w" w] assms by simp
  then show ?thesis
    by (simp add: cleanup_log syncContent_caught [OF assms])
qed

theorem sync_failed_attempt_cleanup_witness:
  "syncContent (fetch_fails_remote ''API Error'') mockEnv ''test-key'' ''new content'' 0 start
   = (failure_result ''API Error'',
      ([GetCurrentFile, DeleteBranch ''text-update-test-key-1700''], (1, 0)))"
  using sync_failed_attempt_cleanup [OF fetch_fails_try, of 0]
  by (simp add: mock_simps)

subsection \<open>Rendering the templates\<close>

lemma prefix_within:
  assumes "prefix p (u @ v)" and "length p \<le> length u"
  shows "prefix p u"
proof -
  from assms(1) obtain zs where "u @ v = p @ zs" by (auto simp: prefix_def)
  then have "take (length p) (u @ v) = p" by simp
  with assms(2) have "take (length p) u = p" by simp
  then show ?thesis by (metis take_is_prefix)
qed

lemma indexOf_first:
  assumes "\<not> includes_str (a @ butlast p) p" and "p \<noteq> []"
  shows "indexOf (a @ p @ b) p = Some (length a)"
  using assms
proof (induction a)
  case Nil
  then show ?case by (cases p) simp_all
next
  case (Cons x a)
  have "p @ b = butlast p @ (last p # b)"
    using Cons.prems(2) by (metis append_butlast_last_id append.assoc append_Cons append_Nil)
  then have split: "(x # a) @ p @ b = ((x # a) @ butlast p) @ (last p # b)"
    by (simp only: append_assoc)
  have np: "\<not> prefix p ((x # a) @ butlast p)"
    using Cons.prems(1) by (auto simp: includes_str_def split: if_splits)
  have "\<not> prefix p ((x # a) @ p @ b)"
  proof
    assume "prefix p ((x # a) @ p @ b)"
    then have "prefix p (((x # a) @ butlast p) @ (last p # b))" by (simp only: split)
    moreover have "length p \<le> length ((x # a) @ butlast p)" by simp
    ultimately have "prefix p ((x # a) @ butlast p)" by (rule prefix_within)
    with np show False ..
  qed
  moreover have "\<not> includes_str (a @ butlast p) p"
    using Cons.prems(1) by (auto simp: includes_str_def split: if_splits)
  ultimately show ?case using Cons.IH Cons.prems(2) by simp
qed

lemma replace_first:
  assumes "\<not> includes_str (a @ butlast p) p" and "p \<noteq> []"
  shows "replace (a @ p @ b) p r = a @ getSubstitution p a b r @ b"
  by (simp add: replace_def indexOf_first [OF assms])

lemma replace_absent: "\<not> includes_str s p \<Longrightarrow> replace s p r = s"
  by (simp add: replace_def includes_str_def)

lemma getSubstitution_plain:
  "CHR ''$'' \<notin> set r \<Longrightarrow> getSubstitution m pre post r = r"
  by (induction m pre post r rule: getSubstitution.induct) auto

lemma render_literal:
  assumes "CHR ''$'' \<notin> set key" and "CHR ''$'' \<notin> set timestamp"
    and "\<not> includes_str (a @ ''{key'') ''{key}''"
    and "\<not> includes_str (a @ key @ b1 @ ''{timestamp'') ''{timestamp}''"
  shows "render (a @ ''{key}'' @ b1 @ ''{timestamp}'' @ b2) key timestamp =
           a @ key @ b1 @ timestamp @ b2"
proof -
  have "replace (a @ ''{key}'' @ b1 @ ''{timestamp}'' @ b2) ''{key}'' key =
      a @ key @ b1 @ ''{timestamp}'' @ b2"
    using assms(1,3) by (subst replace_first) (simp_all add: getSubstitution_plain)
  moreover have "replace ((a @ key @ b1) @ ''{timestamp}'' @ b2) ''{timestamp}'' timestamp =
      (a @ key @ b1) @ timestamp @ b2"
    using assms(2,4) by (subst replace_first) (simp_all add: getSubstitution_plain)
  ultimately show ?thesis by (simp add: render_def)
qed

lemma short_not_includes:
  "length s < length p \<Longrightarrow> \<not> includes_str s p"
proof (induction s)
  case Nil
  then show ?case by (simp add: includes_str_def)
next
  case (Cons c s)
  have "\<not> prefix p (c # s)"
    using Cons.prems prefix_length_le by fastforce
  moreover have "\<not> includes_str s p"
    using Cons by simp
  ultimately show ?case by (simp add: includes_str_def)
qed

lemma first_occurrence_exists:
  assumes "includes_str s p" and "p \<noteq> []"
  shows "\<exists>a b. first_at p a b s"
  using assms
proof (induction s)
  case Nil
  then show ?case by (simp add: includes_str_def)
next
  case (Cons c s)
  show ?case
  proof (cases "prefix p (c # s)")
    case True
    then obtain b where "c # s = p @ b" by (auto simp: prefix_def)
    moreover have "\<not> includes_str (butlast p) p"
      using Cons.prems(2) by (intro short_not_includes) simp
    ultimately have "first_at p [] b (c # s)" by (simp add: first_at_def)
    then show ?thesis by blast
  next
    case False
    with Cons.prems(1) have "includes_str s p"
      by (simp add: includes_str_def)
    from Cons.IH [OF this Cons.prems(2)] obtain a b
      where s: "s = a @ p @ b" and n: "\<not> includes_str (a @ butlast p) p"
      by (auto simp: first_at_def)
    have "p @ b = butlast p @ (last p # b)"
      using Cons.prems(2)
      by (metis append_butlast_last_id append.assoc append_Cons append_Nil)
    then have "c # s = (c # a @ butlast p) @ (last p # b)"
      by (simp add: s)
    then have "prefix (c # a @ butlast p) (c # s)"
      by (metis prefixI)
    with False have "\<not> prefix p (c # a @ butlast p)"
      using prefix_order.trans by blast
    with n have "\<not> includes_str ((c # a) @ butlast p) p"
      by (simp add: includes_str_def)
    then have "first_at p (c # a) b (c # s)"
      by (simp add: first_at_def s)
    then show ?thesis by blast
  qed
qed

lemma first_only_replace:
  assumes "first_only p r a b s out" and "p \<noteq> []"
  shows "replace s p r = out"
proof (cases "includes_str s p")
  case True
  with assms(1) have "s = a @ p @ b" and "\<not> includes_str (a @ butlast p) p"
    and "out = a @ getSubstitution p a b r @ b"
    by (simp_all add: first_only_def first_at_def)
  then show ?thesis using replace_first [OF _ assms(2)] by simp
next
  case False
  with assms(1) show ?thesis by (simp add: first_only_def replace_absent)
qed

lemma first_only_exists:
  assumes "p \<noteq> []"
  shows "\<exists>a b. first_only p r a b s (replace s p r)"
proof (cases "includes_str s p")
  case True
  from first_occurrence_exists [OF this assms] obtain a b where f: "first_at p a b s"
    by blast
  then have "replace s p r = a @ getSubstitution p a b r @ b"
    using replace_first [OF _ assms] by (simp add: first_at_def)
  with True f have "first_only p r a b s (replace s p r)"
    by (simp add: first_only_def)
  then show ?thesis by blast
next
  case False
  then show ?thesis by (simp add: first_only_def replace_absent)
qed

text \<open>
  C9. Rendering is the key's pass followed by the timestamp's pass, and each pass
  replaces the first occurrence of its placeholder and nothing else: where the
  placeholder does not occur the string stays as it is, and where it occurs the string
  is \<open>a\<close>, the first occurrence, \<open>b\<close>, and becomes \<open>a\<close>, the replacement, \<open>b\<close>, with every
  later occurrence inside \<open>b\<close> kept verbatim. This describes the rendering of every
  template (one placeholder or both, once or repeated): such a description always
  exists, and whatever fits it is what \<open>render\<close> returns.
\<close>

theorem render_first_occurrence_only:
  "(\<exists>a b c d s1. first_only ''{key}'' key a b template s1
        \<and> first_only ''{timestamp}'' timestamp c d s1 (render template key timestamp))
   \<and> (\<forall>a b c d s1 out.
        first_only ''{key}'' key a b template s1
        \<and> first_only ''{timestamp}'' timestamp c d s1 out
        \<longrightarrow> render template key timestamp = out)"
proof (intro conjI allI impI)
  obtain a b where 1: "first_only ''{key}'' key a b template (replace template ''{key}'' key)"
    using first_only_exists [of "''{key}''" key template] by auto
  obtain c d where "first_only ''{timestamp}'' timestamp c d (replace template ''{key}'' key)
      (replace (replace template ''{key}'' key) ''{timestamp}'' timestamp)"
    using first_only_exists [of "''{timestamp}''" timestamp "replace template ''{key}'' key"]
    by auto
  with 1 show "\<exists>a b c d s1. first_only ''{key}'' key a b template s1
        \<and> first_only ''{timestamp}'' timestamp c d s1 (render template key timestamp)"
    unfolding render_def by blast
next
  fix a b c d s1 out
  assume h: "first_only ''{key}'' key a b template s1
        \<and> first_only ''{timestamp}'' timestamp c d s1 out"
  then have "replace template ''{key}'' key = s1"
    by (intro first_only_replace [of _ _ a b]) simp_all
  moreover from h have "replace s1 ''{timestamp}'' timestamp = out"
    by (intro first_only_replace [of _ _ c d]) simp_all
  ultimately show "render template key timestamp = out"
    by (simp add: render_def)
qed

theorem render_first_occurrence_only_witness:
  "render ''{key} and {key}'' ''greeting'' ''2024-01-01T00:00:00.000Z''
     = ''greeting and {key}''
   \<and> render ''{timestamp} / {timestamp}'' ''greeting'' ''2024-01-01T00:00:00.000Z''
     = ''2024-01-01T00:00:00.000Z / {timestamp}''
   \<and> render ''{key} and {key} at {timestamp} and {timestamp}'' ''greeting''
       ''2024-01-01T00:00:00.000Z''
     = ''greeting and {key} at 2024-01-01T00:00:00.000Z and {timestamp}''"
proof -
  note spec = render_first_occurrence_only [THEN conjunct2, rule_format]
  have 1: "first_only ''{key}'' ''greeting'' [] '' and {key}'' ''{key} and {key}''
        ''greeting and {key}''
      \<and> first_only ''{timestamp}'' ''2024-01-01T00:00:00.000Z'' [] [] ''greeting and {key}''
        ''greeting and {key}''"
    by (simp add: first_only_def first_at_def includes_str_def)
  have 2: "first_only ''{key}'' ''greeting'' [] [] ''{timestamp} / {timestamp}''
        ''{timestamp} / {timestamp}''
      \<and> first_only ''{timestamp}'' ''2024-01-01T00:00:00.000Z'' [] '' / {timestamp}''
        ''{timestamp} / {timestamp}'' ''2024-01-01T00:00:00.000Z / {timestamp}''"
    by (simp add: first_only_def first_at_def includes_str_def)
  have 3: "first_only ''{key}'' ''greeting'' [] '' and {key} at {timestamp} and {timestamp}''
        ''{key} and {key} at {timestamp} and {timestamp}''
        ''greeting and {key} at {timestamp} and {timestamp}''
      \<and> first_only ''{timestamp}'' ''2024-01-01T00:00:00.000Z'' ''greeting and {key} at ''
        '' and {timestamp}'' ''greeting and {key} at {timestamp} and {timestamp}''
        ''greeting and {key} at 2024-01-01T00:00:00.000Z and {timestamp}''"
    by (simp add: first_only_def first_at_def includes_str_def)
  show ?thesis
    using spec [OF 1] spec [OF 2] spec [OF 3] by blast
qed

text \<open>
  An attempt that succeeds has rendered the commit message, the review title and the
  review body with the one timestamp read at its start.
\<close>

lemma sync_success_one_timestamp:
  assumes "commit_step ok cfg key body w = Some (t, Inr u, w3)"
    and "createPullRequest ok cfg (branch_name ok key w)
           (render (prTitleTemplate cfg) key (date_toISOString ok (snd w)))
           (render (prBodyTemplate cfg) key (date_toISOString ok (snd w))) w3 = (Inr url, w4)"
  shows "syncContent ok cfg key body rc w = (success_result url, w4)"
    and "filter is_commit (fst w4) = filter is_commit (fst w) @
           [CommitFile (branch_name ok key w) body
              (render (commitMessageTemplate cfg) key (date_toISOString ok (snd w))) t]"
    and "fst w4 = fst w3 @
           [CreatePullRequest (branch_name ok key w)
              (render (prTitleTemplate cfg) key (date_toISOString ok (snd w)))
              (render (prBodyTemplate cfg) key (date_toISOString ok (snd w)))]"
proof -
  show "syncContent ok cfg key body rc w = (success_result url, w4)"
    by (rule syncContent_returned) (simp add: sync_try_commit_ok [OF assms(1)] assms(2))
  show l: "fst w4 = fst w3 @
           [CreatePullRequest (branch_name ok key w)
              (render (prTitleTemplate cfg) key (date_toISOString ok (snd w)))
              (render (prBodyTemplate cfg) key (date_toISOString ok (snd w)))]"
    using createPullRequest_logD [OF assms(2)] .
  show "filter is_commit (fst w4) = filter is_commit (fst w) @
           [CommitFile (branch_name ok key w) body
              (render (commitMessageTemplate cfg) key (date_toISOString ok (snd w))) t]"
    using commit_step_log(1) [OF assms(1)] by (simp add: l)
qed

text \<open>
  C5, at a key that holds a replacement pattern. The commit message and the review
  title and body of one attempt are rendered with one timestamp, but the key is not
  inserted literally: \<^verbatim>\<open>replace\<close> expands \<^verbatim>\<open>$&\<close> to the placeholder it has just
  matched. (For a key and a timestamp without a dollar sign the substitution is
  literal: \<open>render_literal\<close>; the one timestamp: \<open>sync_success_one_timestamp\<close>.)
\<close>

theorem sync_renders_dollar_key:
  "syncContent (mockOctokit [old_file] [] (Inr ''pr-url'') (Inr ())) mockEnv ''$&''
     ''new content'' 0 start
   = (success_result ''pr-url'',
      ([GetCurrentFile, CreateBranch ''text-update-$&-1700'',
        CommitFile ''text-update-$&-1700'' ''new content''
          ''Update {key} - 2024-01-01T00:00:00.000Z'' (Some ''abc123''),
        CreatePullRequest ''text-update-$&-1700'' ''Update: {key}'' ''PR for {key}''],
       (1, 1)))"
  by (simp add: syncContent.simps mock_simps)

section \<open>Properties of the text store\<close>

subsection \<open>Own properties\<close>

lemma map_of_insert_index:
  "map_of ps k = None \<Longrightarrow>
     map_of (insert_index n k v ps) k' = (if k' = k then Some v else map_of ps k')"
  by (induction ps) (auto split: option.splits if_splits)

lemma keys_insert_index: "fst ` set (insert_index n k v ps) = insert k (fst ` set ps)"
  by (induction ps) (auto split: option.splits)

lemma map_of_put_own:
  "map_of (put_own k v ps) k' = (if k' = k then Some v else map_of ps k')"
  by (auto simp: put_own_def update_conv' map_of_insert_index map_add_def split: option.splits)

lemma keys_put_own: "fst ` set (put_own k v ps) = insert k (fst ` set ps)"
  by (auto simp: put_own_def dom_update keys_insert_index split: option.splits)

lemma put_own_enumeration_order:
  "put_own ''2'' v [(''10'', a), (''b'', c)] = [(''2'', v), (''10'', a), (''b'', c)]"
  "put_own ''x'' v [(''10'', a), (''b'', c)] = [(''10'', a), (''b'', c), (''x'', v)]"
  "put_own ''b'' v [(''10'', a), (''b'', c)] = [(''10'', a), (''b'', v)]"
  "put_own ''02'' v [(''10'', a), (''b'', c)] = [(''10'', a), (''b'', c), (''02'', v)]"
  by (simp_all add: put_own_def array_index_def)

lemmas store_simps =
  empty_store_def store_with_key1_def store_after_listing_def new_TextService_def
  text_item_def getText_def updateText_def getAllTexts_def get_member_def set_member_def
  delete_member_def get_version_def or_else_def item_fields_def count_def getMetadata_def
  object_prototype_names_def Let_def put_own_def array_index_def own_entries_def

subsection \<open>Writing an item\<close>

text \<open>
  On a plain mapping, for a key that no object inherits: a new key gets version 1, a
  key whose item holds an integer version gets the next one; the new item is what
  \<^verbatim>\<open>getText\<close> returns afterwards, and \<^verbatim>\<open>lastUpdated\<close> is the second clock reading.
\<close>

lemma updateText_new_key:
  assumes "texts (artifact st) = VRef t" and "t < length (heap st)"
    and "heap st ! t = ObjCell ps" and "map_of ps key = None"
    and "key \<notin> set object_prototype_names"
  shows "\<exists>st'. updateText st t1 t2 key body approvedBy = Returns (VRef (length (heap st)), st')
      \<and> heap st' ! length (heap st) = text_item key body t1 approvedBy (VNum (Finite 1))
      \<and> getText st' key = Returns (VRef (length (heap st)))
      \<and> lastUpdated (artifact st') = VStr t2"
proof -
  have k: "key \<noteq> ''__proto__''"
    using assms(5) by (auto simp: object_prototype_names_def)
  show ?thesis
    using assms k
    by (simp add: updateText_def getText_def get_member_def set_member_def or_else_def Let_def
        nth_append map_of_put_own)
qed

lemma updateText_existing_key:
  assumes "texts (artifact st) = VRef t" and "t < length (heap st)"
    and "heap st ! t = ObjCell ps" and "map_of ps key = Some (VRef a)"
    and "a < length (heap st)" and "heap st ! a = ObjCell qs"
    and "map_of qs ''version'' = Some (VNum (Finite n))" and "\<bar>n\<bar> < 2 ^ 53"
  shows "\<exists>st'. updateText st t1 t2 key body approvedBy = Returns (VRef (length (heap st)), st')
      \<and> heap st' ! length (heap st) = text_item key body t1 approvedBy (VNum (Finite (n + 1)))
      \<and> getText st' key = Returns (VRef (length (heap st)))
      \<and> lastUpdated (artifact st') = VStr t2"
  using assms
  by (simp add: updateText_def getText_def get_member_def set_member_def or_else_def Let_def
      get_version_def nth_append map_of_put_own)

text \<open>
  C6, at a key that every object inherits. On a new store,
  \<^verbatim>\<open>updateText('constructor', 'x')\<close> finds \<^verbatim>\<open>Object.prototype.constructor\<close> as the
  existing item, adds one to its missing version, and stores an item whose version is
  \<^verbatim>\<open>NaN\<close>, where the key did not exist and the version should be 1.
\<close>

theorem updateText_inherited_key:
  "updateText empty_store ''2023-01-02T00:00:00.000Z'' ''2023-01-02T00:00:00.001Z''
     ''constructor'' ''x'' None
   = Returns (VRef 1,
       \<lparr>artifact = \<lparr>version = VStr ''1.0.0'', lastUpdated = VStr ''2023-01-02T00:00:00.001Z'',
                     texts = VRef 0\<rparr>,
        heap = [ObjCell [(''constructor'', VRef 1)],
                ObjCell [(''key'', VStr ''constructor''), (''content'', VStr ''x''),
                         (''approvedAt'', VStr ''2023-01-02T00:00:00.000Z''),
                         (''approvedBy'', VUndefined), (''version'', VNum NaN)]]\<rparr>)"
  by (simp add: store_simps)

subsection \<open>Loading a document\<close>

lemma alloc_extends:
  "alloc_json j h = (v, h') \<Longrightarrow> prefix h h'"
  "alloc_elems xs h = (vs, h') \<Longrightarrow> prefix h h'"
  "alloc_fields acc fs h = (ps, h') \<Longrightarrow> prefix h h'"
proof (induction j h and xs h and acc fs h arbitrary: v h' and vs h' and ps h'
    rule: alloc_json_alloc_elems_alloc_fields.induct)
  case (5 xs h)
  then show ?case
    by (auto split: prod.splits)
next
  case (6 fs h)
  then show ?case
    by (auto split: prod.splits)
next
  case (8 x xs h)
  then show ?case
    by (auto split: prod.splits) (meson prefix_order.trans)
next
  case (10 acc k x fs h)
  then show ?case
    by (auto split: prod.splits) (meson prefix_order.trans)
qed auto

lemma alloc_fields_keys:
  "alloc_fields acc fs h = (ps, h') \<Longrightarrow> fst ` set ps = fst ` set acc \<union> fst ` set fs"
proof (induction fs arbitrary: acc h)
  case Nil
  then show ?case by simp
next
  case (Cons f fs)
  obtain k x where f: "f = (k, x)" by (cases f)
  obtain v h1 where a: "alloc_json x h = (v, h1)" by (cases "alloc_json x h")
  from Cons.prems have "alloc_fields (put_own k v acc) fs h1 = (ps, h')"
    by (simp add: f a)
  from Cons.IH [OF this] show ?case
    by (auto simp: f keys_put_own)
qed


lemma alloc_fields_other_key:
  "alloc_fields acc fs h = (ps, h') \<Longrightarrow> k \<notin> fst ` set fs \<Longrightarrow> map_of ps k = map_of acc k"
proof (induction fs arbitrary: acc h)
  case Nil
  then show ?case by simp
next
  case (Cons f fs)
  obtain k' x where f: "f = (k', x)" by (cases f)
  obtain v h1 where a: "alloc_json x h = (v, h1)" by (cases "alloc_json x h")
  from Cons.prems have r: "alloc_fields (put_own k' v acc) fs h1 = (ps, h')"
    and nk: "k \<noteq> k'" "k \<notin> fst ` set fs"
    by (auto simp: f a)
  from Cons.IH [OF r nk(2)] nk(1) show ?case
    by (simp add: map_of_put_own)
qed

lemma alloc_fields_binding:
  "alloc_fields acc fs h = (ps, h') \<Longrightarrow> map_of (rev fs) k = Some j \<Longrightarrow>
     \<exists>h0 h1 v. alloc_json j h0 = (v, h1) \<and> prefix h1 h' \<and> map_of ps k = Some v"
proof (induction fs arbitrary: acc h)
  case Nil
  then show ?case by simp
next
  case (Cons f fs)
  obtain k' x where f: "f = (k', x)" by (cases f)
  obtain v' h1' where a: "alloc_json x h = (v', h1')" by (cases "alloc_json x h")
  from Cons.prems(1) have r: "alloc_fields (put_own k' v' acc) fs h1' = (ps, h')"
    by (simp add: f a)
  show ?case
  proof (cases "map_of (rev fs) k")
    case (Some j')
    with Cons.prems(2) have "j' = j" by (simp add: f map_add_def)
    with Some Cons.IH [OF r] show ?thesis by simp
  next
    case None
    with Cons.prems(2) have kk: "k = k'" "x = j"
      by (auto simp: f map_add_def split: if_splits)
    from None have "k \<notin> fst ` set fs"
      by (metis map_of_eq_None_iff set_rev)
    from alloc_fields_other_key [OF r this] have "map_of ps k = Some v'"
      by (simp add: kk map_of_put_own)
    moreover have "prefix h1' h'" using alloc_extends(3) [OF r] .
    ultimately show ?thesis using a kk by blast
  qed
qed

lemma prefix_nth: "prefix xs ys \<Longrightarrow> i < length xs \<Longrightarrow> ys ! i = xs ! i"
  by (auto simp: prefix_def nth_append)

lemma prefix_length: "prefix xs ys \<Longrightarrow> length xs \<le> length ys"
  by (auto simp: prefix_def)

lemma alloc_object:
  assumes "alloc_json (JObj fs) h0 = (v, h1)" and "prefix h1 H"
  obtains a ps g where "v = VRef a" and "a < length H" and "H ! a = ObjCell ps"
    and "alloc_fields [] fs h0 = (ps, g)"
proof -
  obtain ps g where af: "alloc_fields [] fs h0 = (ps, g)" by (cases "alloc_fields [] fs h0")
  with assms(1) have v: "v = VRef (length g)" and h1: "h1 = g @ [ObjCell ps]" by auto
  have "length g < length h1" by (simp add: h1)
  then have "length g < length H" using prefix_length [OF assms(2)] by simp
  moreover have "H ! length g = ObjCell ps"
    using prefix_nth [OF assms(2), of "length g"] by (simp add: h1)
  ultimately show ?thesis using that v af by blast
qed

lemma loadFromJson_record:
  assumes "parse s = Some (JObj fs)"
    and "map_of (rev fs) ''texts'' = Some (JObj recs)"
    and "map_of (rev recs) k = Some (JObj flds)"
  shows "\<exists>qs. item_fields (loadFromJson parse now st s) k = Returns qs
             \<and> fst ` set qs = fst ` set flds"
proof -
  obtain ps h1 where af: "alloc_fields [] fs (heap st) = (ps, h1)"
    by (cases "alloc_fields [] fs (heap st)")
  let ?H = "h1 @ [ObjCell ps]"
  have root: "alloc_json (JObj fs) (heap st) = (VRef (length h1), ?H)"
    by (simp add: af)
  from alloc_fields_binding [OF af assms(2)] obtain g0 g1 tv
    where t: "alloc_json (JObj recs) g0 = (tv, g1)" "prefix g1 h1" "map_of ps ''texts'' = Some tv"
    by blast
  have pH: "prefix h1 ?H" by simp
  from t(2) pH have g1H: "prefix g1 ?H" by (rule prefix_order.trans)
  from alloc_object [OF t(1) g1H] obtain a rs g where
    tv: "tv = VRef a" "a < length ?H" "?H ! a = ObjCell rs" and ar: "alloc_fields [] recs g0 = (rs, g)"
    by blast
  have gg1: "prefix g g1" using t(1) ar by auto
  from alloc_fields_binding [OF ar assms(3)] obtain f0 f1 iv
    where i: "alloc_json (JObj flds) f0 = (iv, f1)" "prefix f1 g" "map_of rs k = Some iv"
    by blast
  have f1H: "prefix f1 ?H"
    using i(2) gg1 g1H by (meson prefix_order.trans)
  from alloc_object [OF i(1) f1H] obtain b qs f where
    iv: "iv = VRef b" "b < length ?H" "?H ! b = ObjCell qs" and aq: "alloc_fields [] flds f0 = (qs, f)"
    by blast
  have st': "loadFromJson parse now st s =
      \<lparr>artifact = \<lparr>version = or_else (parsed_member ?H (VRef (length h1)) ''version'') (VStr ''1.0.0''),
                    lastUpdated = or_else (parsed_member ?H (VRef (length h1)) ''lastUpdated'') (VStr now),
                    texts = tv\<rparr>,
       heap = ?H\<rparr>"
    using assms(1) root t(3) tv(1)
    by (simp add: loadFromJson_def load_try_def Let_def parsed_member_def)
  have "getText (loadFromJson parse now st s) k = Returns (VRef b)"
    using tv i(3) iv(1) by (simp add: st' getText_def get_member_def or_else_def)
  then have "item_fields (loadFromJson parse now st s) k = Returns qs"
    using iv by (simp add: item_fields_def st')
  moreover have "fst ` set qs = fst ` set flds"
    using alloc_fields_keys [OF aq] by simp
  ultimately show ?thesis by blast
qed

lemma loadFromJson_caught:
  assumes "load_try parse now st s = Inl e"
  shows "loadFromJson parse now st s =
           \<lparr>artifact = \<lparr>version = VStr ''1.0.0'', lastUpdated = VStr now,
                         texts = VRef (length (heap st))\<rparr>,
            heap = heap st @ [ObjCell []]\<rparr>"
    and "getMetadata (loadFromJson parse now st s) = (VStr ''1.0.0'', VStr now, Returns 0)"
  using assms by (simp_all add: loadFromJson_def getMetadata_def count_def own_entries_def)

text \<open>
  C7. \<^verbatim>\<open>loadFromJson\<close> returns for every text: where \<^verbatim>\<open>JSON.parse\<close> throws, and
  for any other error inside the \<^verbatim>\<open>try\<close> block, the store is an empty artifact with
  version \<^verbatim>\<open>1.0.0\<close>, the current time and a new empty mapping, so that the count is
  0. Where the document is an object whose \<^verbatim>\<open>texts\<close> is an object holding a record
  under a key, the item read back under that key has exactly the properties the
  record has in the document: a missing \<^verbatim>\<open>version\<close>, \<^verbatim>\<open>approvedAt\<close> or
  \<^verbatim>\<open>approvedBy\<close> stays missing.
\<close>

theorem loadFromJson_fail_open:
  "(parse s = None \<longrightarrow> load_try parse now st s = Inl SyntaxError)
   \<and> (load_try parse now st s = Inl e \<longrightarrow>
        loadFromJson parse now st s =
          \<lparr>artifact = \<lparr>version = VStr ''1.0.0'', lastUpdated = VStr now,
                        texts = VRef (length (heap st))\<rparr>,
           heap = heap st @ [ObjCell []]\<rparr>
        \<and> getMetadata (loadFromJson parse now st s) = (VStr ''1.0.0'', VStr now, Returns 0))
   \<and> (parse s = Some (JObj fs) \<and> map_of (rev fs) ''texts'' = Some (JObj recs)
        \<and> map_of (rev recs) k = Some (JObj flds) \<longrightarrow>
        (\<exists>qs. item_fields (loadFromJson parse now st s) k = Returns qs
              \<and> fst ` set qs = fst ` set flds))"
proof (intro conjI impI)
  assume "parse s = None"
  then show "load_try parse now st s = Inl SyntaxError" by (simp add: load_try_def)
next
  assume "load_try parse now st s = Inl e"
  then show "loadFromJson parse now st s =
          \<lparr>artifact = \<lparr>version = VStr ''1.0.0'', lastUpdated = VStr now,
                        texts = VRef (length (heap st))\<rparr>,
           heap = heap st @ [ObjCell []]\<rparr>"
    by (rule loadFromJson_caught(1))
next
  assume "load_try parse now st s = Inl e"
  then show "getMetadata (loadFromJson parse now st s) = (VStr ''1.0.0'', VStr now, Returns 0)"
    by (rule loadFromJson_caught(2))
next
  assume "parse s = Some (JObj fs) \<and> map_of (rev fs) ''texts'' = Some (JObj recs)
        \<and> map_of (rev recs) k = Some (JObj flds)"
  then show "\<exists>qs. item_fields (loadFromJson parse now st s) k = Returns qs
              \<and> fst ` set qs = fst ` set flds"
    using loadFromJson_record [of parse s fs recs k flds now st] by simp
qed

theorem loadFromJson_fail_open_witness:
  "sample_parse ''invalid json'' = None
   \<and> loadFromJson sample_parse ''2023-01-03T00:00:00.000Z'' empty_store ''invalid json'' =
       \<lparr>artifact = \<lparr>version = VStr ''1.0.0'', lastUpdated = VStr ''2023-01-03T00:00:00.000Z'',
                     texts = VRef (length (heap empty_store))\<rparr>,
        heap = heap empty_store @ [ObjCell []]\<rparr>
   \<and> getMetadata (loadFromJson sample_parse ''2023-01-03T00:00:00.000Z'' empty_store
         ''invalid json'') = (VStr ''1.0.0'', VStr ''2023-01-03T00:00:00.000Z'', Returns 0)
   \<and> (\<exists>qs. item_fields
              (loadFromJson sample_parse ''2023-01-03T00:00:00.000Z'' empty_store
                 ''{\"texts\":{\"test-key\":{\"key\":\"test-key\",\"content\":\"test content\"}}}'')
              ''test-key'' = Returns qs
            \<and> fst ` set qs = {''key'', ''content''})"
proof -
  let ?doc = "''{\"texts\":{\"test-key\":{\"key\":\"test-key\",\"content\":\"test content\"}}}''"
  let ?recs = "[(''test-key'', JObj [(''key'', JStr ''test-key''), (''content'', JStr ''test content'')])]"
  have n: "sample_parse ''invalid json'' = None"
    by (simp add: sample_parse_def)
  have d: "sample_parse ?doc = Some (JObj [(''texts'', JObj ?recs)])
      \<and> map_of (rev [(''texts'', JObj ?recs)]) ''texts'' = Some (JObj ?recs)
      \<and> map_of (rev ?recs) ''test-key''
          = Some (JObj [(''key'', JStr ''test-key''), (''content'', JStr ''test content'')])"
    by (simp add: sample_parse_def sample_document_def)
  note a = loadFromJson_fail_open [of sample_parse "''invalid json''"
      "''2023-01-03T00:00:00.000Z''" empty_store SyntaxError]
  note b = loadFromJson_fail_open [of sample_parse ?doc "''2023-01-03T00:00:00.000Z''"
      empty_store SyntaxError "[(''texts'', JObj ?recs)]" ?recs "''test-key''"
      "[(''key'', JStr ''test-key''), (''content'', JStr ''test content'')]"]
  from a n have "loadFromJson sample_parse ''2023-01-03T00:00:00.000Z'' empty_store ''invalid json'' =
       \<lparr>artifact = \<lparr>version = VStr ''1.0.0'', lastUpdated = VStr ''2023-01-03T00:00:00.000Z'',
                     texts = VRef (length (heap empty_store))\<rparr>,
        heap = heap empty_store @ [ObjCell []]\<rparr>
     \<and> getMetadata (loadFromJson sample_parse ''2023-01-03T00:00:00.000Z'' empty_store
         ''invalid json'') = (VStr ''1.0.0'', VStr ''2023-01-03T00:00:00.000Z'', Returns 0)"
    by blast
  moreover from b d have "\<exists>qs. item_fields
              (loadFromJson sample_parse ''2023-01-03T00:00:00.000Z'' empty_store ?doc)
              ''test-key'' = Returns qs
            \<and> fst ` set qs = {''key'', ''content''}"
    by simp
  ultimately show ?thesis using n by blast
qed

subsection \<open>Listing the items\<close>


lemma own_entries_valid:
  "own_entries h (VRef a) = Some ps \<Longrightarrow> a < length h"
  by (auto simp: own_entries_def split: if_splits)




text \<open>
  Where a loaded document left a string or an array as \<^verbatim>\<open>texts\<close>, the listing is
  still a new plain object, holding the characters or elements under their indices.
\<close>

lemma getAllTexts_of_string:
  "getAllTexts \<lparr>artifact = \<lparr>version = VStr ''1.0.0'', lastUpdated = VStr ''t'',
                             texts = VStr ''ab''\<rparr>, heap = []\<rparr>
   = Returns (VRef 0,
       \<lparr>artifact = \<lparr>version = VStr ''1.0.0'', lastUpdated = VStr ''t'', texts = VStr ''ab''\<rparr>,
        heap = [ObjCell [(''0'', VStr ''a''), (''1'', VStr ''b'')]]\<rparr>)"
  by (simp add: getAllTexts_def own_entries_def digits.simps upt_rec)

lemma getAllTexts_of_array:
  "getAllTexts \<lparr>artifact = \<lparr>version = VStr ''1.0.0'', lastUpdated = VStr ''t'',
                             texts = VRef 0\<rparr>, heap = [ArrCell [VNull, VBool True]]\<rparr>
   = Returns (VRef 1,
       \<lparr>artifact = \<lparr>version = VStr ''1.0.0'', lastUpdated = VStr ''t'', texts = VRef 0\<rparr>,
        heap = [ArrCell [VNull, VBool True], ObjCell [(''0'', VNull), (''1'', VBool True)]]\<rparr>)"
  by (simp add: getAllTexts_def own_entries_def digits.simps upt_rec)


end
